theory Spec2Isabelle
  imports Complex_Main "HOL-Library.Signed_Division"
begin

section \<open>Shared representation choices\<close>

text \<open>
  The C++ sources pass objects of the surrounding game engine around by pointer
  (\<open>const Government *\<close>, \<open>const System *\<close>, \<open>const Ship *\<close>).  A pointer is a natural
  number here and \<open>nullptr\<close> is the number 0.  A \<open>double\<close> is a real number (no NaN, no
  rounding), an \<open>int\<close> is an integer, a \<open>std::string\<close> is a \<open>string\<close>.
\<close>

type_synonym Government_ptr = nat
type_synonym System_ptr = nat
type_synonym Ship_ptr = nat

definition nullptr :: nat where
  "nullptr = 0"

text \<open>
  Modelled from the spec: \<open>Date.h\<close> is not part of the sources.  A date is the number of
  its day; the default-constructed date is 0 and converts to \<open>false\<close>, and the difference
  of two dates is the number of days between them.
\<close>

type_synonym Date = int

definition Date_default :: Date where
  "Date_default = 0"

definition Date_bool :: "Date \<Rightarrow> bool" where
  "Date_bool d = (d \<noteq> 0)"

definition Date_minus :: "Date \<Rightarrow> Date \<Rightarrow> int" where
  "Date_minus a b = a - b"

text \<open>
  \<open>static_cast<int>\<close> of a \<open>double\<close> truncates toward zero, and the result is a 32-bit
  \<open>int\<close>: the conversion is defined only when the truncated value lies between
  \<open>INT_MIN\<close> and \<open>INT_MAX\<close>.  Outside this range the behaviour is undefined in C++; the
  model then takes \<open>INT_MIN\<close>, which the conversion instruction of x86-64 delivers.
\<close>

definition INT_MIN :: int where
  "INT_MIN = - 2147483648"

definition INT_MAX :: int where
  "INT_MAX = 2147483647"

definition static_cast_int :: "real \<Rightarrow> int" where
  "static_cast_int x =
     (if real_of_int INT_MIN - 1 < x \<and> x < real_of_int INT_MAX + 1
      then (if 0 \<le> x then \<lfloor>x\<rfloor> else \<lceil>x\<rceil>)
      else INT_MIN)"


section \<open>ReputationManager\<close>

datatype ReputationThreshold = WAR | HOSTILE | UNFRIENDLY | NEUTRAL | FRIENDLY | ALLIED | HONORED

text \<open>The enumerators' values, \<open>static_cast<int>(ReputationThreshold::X)\<close>.\<close>

fun threshold_int :: "ReputationThreshold \<Rightarrow> int" where
  "threshold_int WAR = -100"
| "threshold_int HOSTILE = -50"
| "threshold_int UNFRIENDLY = -25"
| "threshold_int NEUTRAL = 0"
| "threshold_int FRIENDLY = 25"
| "threshold_int ALLIED = 50"
| "threshold_int HONORED = 100"

record ReputationConfig =
  positiveDecayRate :: real
  negativeRecoveryRate :: real
  neutralPoint :: real
  atrocityThreshold :: real
  forgivesAtrocities :: bool
  atrocityForgivenessDays :: int
  allyReputationFactor :: real
  memoryStrength :: real

definition ReputationConfig_init :: ReputationConfig where
  "ReputationConfig_init =
     \<lparr>positiveDecayRate = 1 / 100, negativeRecoveryRate = 5 / 1000, neutralPoint = 0,
      atrocityThreshold = -50, forgivesAtrocities = False, atrocityForgivenessDays = 365,
      allyReputationFactor = 1 / 2, memoryStrength = 1 / 2\<rparr>"

record ReputationEvent =
  rev_date :: Date
  rev_change :: real
  rev_reason :: string
  wasAtrocity :: bool
  wasWitnessed :: bool

record GovernmentReputationState =
  lastInteraction :: Date
  hasCommittedAtrocity :: bool
  atrocityDate :: Date
  goodDeedCount :: int
  rep_recentEvents :: "ReputationEvent list"
  peakReputation :: real
  troughReputation :: real
  daysSincePositiveInteraction :: int

definition GovernmentReputationState_init :: GovernmentReputationState where
  "GovernmentReputationState_init =
     \<lparr>lastInteraction = Date_default, hasCommittedAtrocity = False,
      atrocityDate = Date_default, goodDeedCount = 0, rep_recentEvents = [],
      peakReputation = 0, troughReputation = 0, daysSincePositiveInteraction = 0\<rparr>"

record ReputationManager =
  defaultConfig :: ReputationConfig
  configs :: "Government_ptr \<rightharpoonup> ReputationConfig"
  states :: "Government_ptr \<rightharpoonup> GovernmentReputationState"

definition ReputationManager_init :: ReputationManager where
  "ReputationManager_init =
     \<lparr>defaultConfig = ReputationConfig_init, configs = Map.empty, states = Map.empty\<rparr>"

definition SetConfig :: "ReputationManager \<Rightarrow> Government_ptr \<Rightarrow> ReputationConfig \<Rightarrow> ReputationManager" where
  "SetConfig m gov config =
     (if gov \<noteq> nullptr then m\<lparr>configs := (configs m)(gov \<mapsto> config)\<rparr> else m)"

definition GetConfig :: "ReputationManager \<Rightarrow> Government_ptr \<Rightarrow> ReputationConfig" where
  "GetConfig m gov = (case configs m gov of Some c \<Rightarrow> c | None \<Rightarrow> defaultConfig m)"

text \<open>\<open>states[gov]\<close>: the entry of \<open>gov\<close>, a default-constructed one when there is none.\<close>

definition GetOrCreateState :: "ReputationManager \<Rightarrow> Government_ptr \<Rightarrow> GovernmentReputationState" where
  "GetOrCreateState m gov =
     (case states m gov of Some s \<Rightarrow> s | None \<Rightarrow> GovernmentReputationState_init)"

definition RecordGoodDeed :: "ReputationManager \<Rightarrow> Government_ptr \<Rightarrow> Date \<Rightarrow> ReputationManager" where
  "RecordGoodDeed m gov date =
     (if gov = nullptr then m
      else let state = GetOrCreateState m gov in
        m\<lparr>states := (states m)(gov \<mapsto>
             state\<lparr>goodDeedCount := goodDeedCount state + 1,
                   lastInteraction := date,
                   daysSincePositiveInteraction := 0\<rparr>)\<rparr>)"

definition RecordAtrocity :: "ReputationManager \<Rightarrow> Government_ptr \<Rightarrow> Date \<Rightarrow> ReputationManager" where
  "RecordAtrocity m gov date =
     (if gov = nullptr then m
      else let state = GetOrCreateState m gov in
        m\<lparr>states := (states m)(gov \<mapsto>
             state\<lparr>hasCommittedAtrocity := True,
                   atrocityDate := date,
                   lastInteraction := date\<rparr>)\<rparr>)"

definition HasUnforgivenAtrocity :: "ReputationManager \<Rightarrow> Government_ptr \<Rightarrow> bool" where
  "HasUnforgivenAtrocity m gov =
     (case states m gov of
        None \<Rightarrow> False
      | Some st \<Rightarrow>
          if \<not> hasCommittedAtrocity st then False
          else \<not> forgivesAtrocities (GetConfig m gov))"

definition GetEffectiveDecayRate :: "ReputationManager \<Rightarrow> Government_ptr \<Rightarrow> real" where
  "GetEffectiveDecayRate m gov =
     (let config = GetConfig m gov;
          rate = positiveDecayRate config;
          rate = (case states m gov of
                    None \<Rightarrow> rate
                  | Some state \<Rightarrow>
                      let rate = rate * (1 - memoryStrength config);
                          rate = (if goodDeedCount state > 0
                                  then rate * (1 - min (1 / 2) (real_of_int (goodDeedCount state) * (5 / 100)))
                                  else rate);
                          rate = (if daysSincePositiveInteraction state < 7
                                  then rate * (1 - (3 / 10) * (1 - real_of_int (daysSincePositiveInteraction state) / 7))
                                  else rate)
                      in rate)
      in max 0 rate)"

definition GetEffectiveRecoveryRate :: "ReputationManager \<Rightarrow> Government_ptr \<Rightarrow> real" where
  "GetEffectiveRecoveryRate m gov =
     (let config = GetConfig m gov;
          rate = negativeRecoveryRate config;
          rate = (case states m gov of
                    None \<Rightarrow> rate
                  | Some state \<Rightarrow>
                      let rate = (if hasCommittedAtrocity state then rate * (1 / 10) else rate);
                          rate = (if daysSincePositiveInteraction state > 30
                                  then rate * (1 + min (1 / 2)
                                         (real_of_int (daysSincePositiveInteraction state - 30) * (1 / 100)))
                                  else rate)
                      in rate)
      in max 0 rate)"

definition GetThreshold :: "real \<Rightarrow> ReputationThreshold" where
  "GetThreshold reputation =
     (if reputation \<le> real_of_int (threshold_int WAR) then WAR
      else if reputation \<le> real_of_int (threshold_int HOSTILE) then HOSTILE
      else if reputation \<le> real_of_int (threshold_int UNFRIENDLY) then UNFRIENDLY
      else if reputation < real_of_int (threshold_int FRIENDLY) then NEUTRAL
      else if reputation < real_of_int (threshold_int ALLIED) then FRIENDLY
      else if reputation < real_of_int (threshold_int HONORED) then ALLIED
      else HONORED)"

text \<open>\<open>CrossesThreshold\<close> returns its two output parameters next to the result.\<close>

definition CrossesThreshold :: "real \<Rightarrow> real \<Rightarrow> bool \<times> ReputationThreshold \<times> ReputationThreshold" where
  "CrossesThreshold oldRep newRep =
     (let from = GetThreshold oldRep; to = GetThreshold newRep in (from \<noteq> to, from, to))"

definition ApplyDecay :: "ReputationManager \<Rightarrow> Government_ptr \<Rightarrow> real \<Rightarrow> Date \<Rightarrow> real" where
  "ApplyDecay m gov currentRep currentDate =
     (let config = GetConfig m gov;
          neutralPoint = neutralPoint config
      in if currentRep > neutralPoint then
           (let rate = GetEffectiveDecayRate m gov;
                decay = (currentRep - neutralPoint) * rate;
                newRep = currentRep - decay
            in max neutralPoint newRep)
         else if currentRep < neutralPoint then
           (let rate = GetEffectiveRecoveryRate m gov;
                recovery = (neutralPoint - currentRep) * rate;
                newRep = currentRep + recovery
            in min neutralPoint newRep)
         else currentRep)"


record ThresholdCrossing =
  tc_government :: Government_ptr
  fromThreshold :: ReputationThreshold
  toThreshold :: ReputationThreshold
  tc_date :: Date
  oldReputation :: real
  newReputation :: real

definition Reputation_MAX_EVENT_HISTORY :: nat where
  "Reputation_MAX_EVENT_HISTORY = 50"

definition TrimEventHistory :: "GovernmentReputationState \<Rightarrow> nat \<Rightarrow> GovernmentReputationState" where
  "TrimEventHistory st maxEvents =
     (if length (rep_recentEvents st) > maxEvents
      then st\<lparr>rep_recentEvents :=
                drop (length (rep_recentEvents st) - maxEvents) (rep_recentEvents st)\<rparr>
      else st)"

text \<open>
  The body of the loop of \<open>ReputationManager::StepDaily\<close> for the entry of one government
  in \<open>states\<close>.  The standing of the government belongs to the government:
  \<open>reputation\<close> is what \<open>gov->Reputation()\<close> returns, and the result holds the manager
  after the step, the standing passed to \<open>gov->SetReputation\<close> (the old one when nothing
  changes) and the threshold crossing that is reported, if any.
\<close>

definition StepDaily_entry ::
  "ReputationManager \<Rightarrow> Government_ptr \<Rightarrow> real \<Rightarrow> Date \<Rightarrow>
   ReputationManager \<times> real \<times> ThresholdCrossing option" where
  "StepDaily_entry m gov reputation currentDate =
     (case states m gov of
        None \<Rightarrow> (m, reputation, None)
      | Some state \<Rightarrow>
          if gov = nullptr then (m, reputation, None)
          else let state = state\<lparr>daysSincePositiveInteraction :=
                                   daysSincePositiveInteraction state + 1\<rparr>;
                   m = m\<lparr>states := (states m)(gov \<mapsto> state)\<rparr>;
                   oldRep = reputation;
                   newRep = ApplyDecay m gov reputation currentDate;
                   (crosses, from, to) = CrossesThreshold oldRep newRep;
                   crossing =
                     (if crosses
                      then Some \<lparr>tc_government = gov, fromThreshold = from, toThreshold = to,
                                 tc_date = currentDate, oldReputation = oldRep,
                                 newReputation = newRep\<rparr>
                      else None);
                   state =
                     (if hasCommittedAtrocity state
                      then let config = GetConfig m gov
                           in if forgivesAtrocities config \<and> Date_bool (atrocityDate state)
                              then let daysSinceAtrocity = Date_minus currentDate (atrocityDate state)
                                   in if daysSinceAtrocity \<ge> atrocityForgivenessDays config
                                      then state\<lparr>hasCommittedAtrocity := False\<rparr>
                                      else state
                              else state
                      else state);
                   state = TrimEventHistory state Reputation_MAX_EVENT_HISTORY
               in (m\<lparr>states := (states m)(gov \<mapsto> state)\<rparr>, newRep, crossing))"


section \<open>WitnessSystem\<close>

text \<open>
  Modelled from the spec: the engine's classes \<open>Point\<close>, \<open>Government\<close> and \<open>Ship\<close> are not
  part of the sources.  The records below hold what the witness code reads of them:
  a point is a pair of coordinates and \<open>Distance\<close> is the Euclidean distance; a government
  has its true name, whether it is an enemy of the player (\<open>IsEnemy()\<close>) and of which other
  governments it is an enemy (\<open>IsEnemy(other)\<close>); a ship has its address, position, cloaking,
  condition, attributes (\<open>Attributes().Get(name)\<close>) and government (\<open>None\<close> for \<open>nullptr\<close>).
\<close>

type_synonym Point = "real \<times> real"

definition Distance :: "Point \<Rightarrow> Point \<Rightarrow> real" where
  "Distance p q = sqrt ((fst p - fst q)\<^sup>2 + (snd p - snd q)\<^sup>2)"

record Government =
  gov_addr :: Government_ptr
  TrueName :: string
  IsEnemy :: bool
  IsEnemyOf :: "Government_ptr \<Rightarrow> bool"

record Ship =
  ship_addr :: Ship_ptr
  Position :: Point
  Cloaking :: real
  IsDestroyed :: bool
  IsDisabled :: bool
  Attributes :: "string \<Rightarrow> real"
  GetGovernment :: "Government option"

text \<open>\<open>s.find(pat) != string::npos\<close>: \<open>pat\<close> occurs in \<open>s\<close>.\<close>

fun string_find :: "string \<Rightarrow> string \<Rightarrow> bool" where
  "string_find [] pat = (pat = [])"
| "string_find (c # cs) pat = (take (length pat) (c # cs) = pat \<or> string_find cs pat)"

text \<open>The constants of namespace \<open>WitnessConstants\<close>.\<close>

definition DEFAULT_WITNESS_RANGE :: real where
  "DEFAULT_WITNESS_RANGE = 5000"

definition CLOAK_WITNESS_THRESHOLD :: real where
  "CLOAK_WITNESS_THRESHOLD = 5 / 10"

definition OBSERVER_CLOAK_THRESHOLD :: real where
  "OBSERVER_CLOAK_THRESHOLD = 8 / 10"

definition CIVILIAN_REPORT_CHANCE :: real where
  "CIVILIAN_REPORT_CHANCE = 7 / 10"

definition MILITARY_REPORT_CHANCE :: real where
  "MILITARY_REPORT_CHANCE = 95 / 100"

definition SENSOR_RANGE_MULTIPLIER :: real where
  "SENSOR_RANGE_MULTIPLIER = 15 / 10"

record WitnessInfo =
  wi_ship :: Ship_ptr
  wi_government :: "Government option"
  wi_distance :: real
  canReport :: bool
  hasSensors :: bool
  clarity :: real

record WitnessResult =
  witnesses :: "WitnessInfo list"

definition WitnessResult_init :: WitnessResult where
  "WitnessResult_init = \<lparr>witnesses = []\<rparr>"

definition AddWitness :: "WitnessResult \<Rightarrow> WitnessInfo \<Rightarrow> WitnessResult" where
  "AddWitness result witness = result\<lparr>witnesses := witnesses result @ [witness]\<rparr>"

definition HasEnhancedSensors :: "Ship \<Rightarrow> bool" where
  "HasEnhancedSensors ship =
     (Attributes ship ''cargo scan power'' > 0 \<or>
      Attributes ship ''outfit scan power'' > 0 \<or>
      Attributes ship ''tactical scan power'' > 0)"

definition GetWitnessRange :: "Ship \<Rightarrow> real" where
  "GetWitnessRange ship =
     (let range' = DEFAULT_WITNESS_RANGE
      in if HasEnhancedSensors ship then range' * SENSOR_RANGE_MULTIPLIER else range')"

definition CanWitness :: "Ship \<Rightarrow> Point \<Rightarrow> Ship option \<Rightarrow> real \<Rightarrow> bool" where
  "CanWitness observer eventLocation perpetrator range' =
     (let distance = Distance (Position observer) eventLocation
      in if distance > range' then False
         else if Cloaking observer \<ge> OBSERVER_CLOAK_THRESHOLD then False
         else (case perpetrator of
                 None \<Rightarrow> True
               | Some p \<Rightarrow> if Cloaking p \<ge> CLOAK_WITNESS_THRESHOLD then False else True))"

definition CalculateClarity :: "Ship \<Rightarrow> Point \<Rightarrow> Ship option \<Rightarrow> real \<Rightarrow> real" where
  "CalculateClarity observer eventLocation perpetrator range' =
     (let distance = Distance (Position observer) eventLocation;
          clarity = 1 - distance / range';
          clarity = max 0 (min 1 clarity);
          clarity = (case perpetrator of
                       None \<Rightarrow> clarity
                     | Some p \<Rightarrow> clarity * (1 - Cloaking p * (8 / 10)));
          clarity = (if HasEnhancedSensors observer then min 1 (clarity * (13 / 10)) else clarity)
      in clarity)"

definition WouldReport :: "Ship \<Rightarrow> Government_ptr option \<Rightarrow> bool" where
  "WouldReport witness victimGov =
     (case GetGovernment witness of
        None \<Rightarrow> False
      | Some witnessGov \<Rightarrow>
          let reportChance = CIVILIAN_REPORT_CHANCE;
              reportChance =
                (if IsEnemy witnessGov \<or> string_find (TrueName witnessGov) ''Navy'' \<or>
                    string_find (TrueName witnessGov) ''Militia'' \<or>
                    string_find (TrueName witnessGov) ''Police''
                 then MILITARY_REPORT_CHANCE else reportChance)
          in if IsEnemy witnessGov then False
             else let reportChance =
                        (case victimGov of
                           None \<Rightarrow> reportChance
                         | Some v \<Rightarrow> if \<not> IsEnemyOf witnessGov v then 1 else reportChance)
                  in reportChance \<ge> 1 / 2)"

text \<open>
  The body of the loop of \<open>CheckWitnesses\<close> for one ship of \<open>nearbyShips\<close>, and the loop.
  \<open>ship.get() == perpetrator\<close> compares addresses.
\<close>

definition same_ship :: "Ship \<Rightarrow> Ship option \<Rightarrow> bool" where
  "same_ship ship other = (case other of None \<Rightarrow> False | Some s \<Rightarrow> ship_addr ship = ship_addr s)"

definition CheckWitnesses_step ::
  "Point \<Rightarrow> Ship option \<Rightarrow> Ship option \<Rightarrow> real \<Rightarrow> WitnessResult \<Rightarrow> Ship \<Rightarrow> WitnessResult" where
  "CheckWitnesses_step eventLocation perpetrator victim customRange result ship =
     (if same_ship ship perpetrator \<or> same_ship ship victim then result
      else if IsDestroyed ship \<or> IsDisabled ship then result
      else let range' = GetWitnessRange ship;
               range' = (if customRange > 0 then customRange else range')
           in if \<not> CanWitness ship eventLocation perpetrator range' then result
              else let distance = Distance (Position ship) eventLocation;
                       clarity = CalculateClarity ship eventLocation perpetrator range';
                       gov = GetGovernment ship;
                       canReport = WouldReport ship
                         (case victim of
                            None \<Rightarrow> None
                          | Some v \<Rightarrow> map_option gov_addr (GetGovernment v));
                       hasSensors = HasEnhancedSensors ship
                   in AddWitness result
                        \<lparr>wi_ship = ship_addr ship, wi_government = gov, wi_distance = distance,
                         canReport = canReport, hasSensors = hasSensors, clarity = clarity\<rparr>)"

fun CheckWitnesses_loop ::
  "Point \<Rightarrow> Ship option \<Rightarrow> Ship option \<Rightarrow> real \<Rightarrow> WitnessResult \<Rightarrow> Ship list \<Rightarrow> WitnessResult" where
  "CheckWitnesses_loop eventLocation perpetrator victim customRange result [] = result"
| "CheckWitnesses_loop eventLocation perpetrator victim customRange result (ship # rest) =
     CheckWitnesses_loop eventLocation perpetrator victim customRange
       (CheckWitnesses_step eventLocation perpetrator victim customRange result ship) rest"

definition CheckWitnesses ::
  "Point \<Rightarrow> Ship option \<Rightarrow> Ship option \<Rightarrow> Ship list \<Rightarrow> real \<Rightarrow> WitnessResult" where
  "CheckWitnesses eventLocation perpetrator victim nearbyShips customRange =
     CheckWitnesses_loop eventLocation perpetrator victim customRange WitnessResult_init nearbyShips"

text \<open>The default argument of \<open>CheckWitnesses\<close> for \<open>customRange\<close>.\<close>

definition customRange_default :: real where
  "customRange_default = DEFAULT_WITNESS_RANGE"

subsection \<open>Delayed reports\<close>

record WitnessReport =
  reportingGov :: Government_ptr
  victimGov :: Government_ptr
  eventType :: int
  framesRemaining :: int
  wr_system :: System_ptr
  reputationImpact :: real
  canBeSuppressed :: bool
  activeWitnesses :: "Ship_ptr list"

text \<open>
  The six-argument constructor; the two members it does not mention keep their default
  initialisers, \<open>canBeSuppressed = true\<close> and an empty \<open>activeWitnesses\<close>.
\<close>

definition WitnessReport_ctor ::
  "Government_ptr \<Rightarrow> Government_ptr \<Rightarrow> int \<Rightarrow> int \<Rightarrow> System_ptr \<Rightarrow> real \<Rightarrow> WitnessReport" where
  "WitnessReport_ctor rGov vGov evType frames sys impact =
     \<lparr>reportingGov = rGov, victimGov = vGov, eventType = evType, framesRemaining = frames,
      wr_system = sys, reputationImpact = impact, canBeSuppressed = True, activeWitnesses = []\<rparr>"

text \<open>\<open>Step\<close> returns its result and the report after the step.\<close>

definition Step :: "WitnessReport \<Rightarrow> bool \<times> WitnessReport" where
  "Step r =
     (let r = (if framesRemaining r > 0 then r\<lparr>framesRemaining := framesRemaining r - 1\<rparr> else r)
      in (framesRemaining r \<le> 0, r))"

definition AllWitnessesEliminated :: "WitnessReport \<Rightarrow> bool" where
  "AllWitnessesEliminated r = (canBeSuppressed r \<and> activeWitnesses r = [])"

text \<open>\<open>find_if\<close> and \<open>erase\<close> remove the first entry that holds the ship, if there is one.\<close>

definition EliminateWitness :: "WitnessReport \<Rightarrow> Ship_ptr \<Rightarrow> bool \<times> WitnessReport" where
  "EliminateWitness r ship =
     (if \<not> canBeSuppressed r then (False, r)
      else let r = r\<lparr>activeWitnesses := remove1 ship (activeWitnesses r)\<rparr>
           in (AllWitnessesEliminated r, r))"

record WitnessSystem =
  pendingReports :: "WitnessReport list"

definition WitnessSystem_init :: WitnessSystem where
  "WitnessSystem_init = \<lparr>pendingReports = []\<rparr>"

definition QueueReport :: "WitnessSystem \<Rightarrow> WitnessReport \<Rightarrow> WitnessSystem" where
  "QueueReport ws report = ws\<lparr>pendingReports := pendingReports ws @ [report]\<rparr>"

text \<open>
  The sweep of \<open>StepReports\<close> over the queue, front to back: the reports that are ready,
  and the reports that stay queued.
\<close>

fun StepReports_loop :: "WitnessReport list \<Rightarrow> WitnessReport list \<times> WitnessReport list" where
  "StepReports_loop [] = ([], [])"
| "StepReports_loop (r # rest) =
     (if AllWitnessesEliminated r then StepReports_loop rest
      else let (done, r') = Step r;
               (ready, pending) = StepReports_loop rest
           in if done then (r' # ready, pending) else (ready, r' # pending))"

definition StepReports :: "WitnessSystem \<Rightarrow> WitnessReport list \<times> WitnessSystem" where
  "StepReports ws =
     (let (ready, pending) = StepReports_loop (pendingReports ws)
      in (ready, ws\<lparr>pendingReports := pending\<rparr>))"

definition NotifyShipDestroyed :: "WitnessSystem \<Rightarrow> Ship_ptr \<Rightarrow> WitnessSystem" where
  "NotifyShipDestroyed ws ship =
     ws\<lparr>pendingReports := map (\<lambda>report. snd (EliminateWitness report ship)) (pendingReports ws)\<rparr>"


subsection \<open>Scenario data of the witness system\<close>

text \<open>
  Three ships: a raider at the origin (the perpetrator), a freighter next to it (the
  victim), and a patrol ship with a cargo scanner 6000 units away.
\<close>

definition example_raider :: Ship where
  "example_raider =
     \<lparr>ship_addr = 1, Position = (0, 0), Cloaking = 0, IsDestroyed = False, IsDisabled = False,
      Attributes = (\<lambda>name. 0), GetGovernment = None\<rparr>"

definition example_freighter :: Ship where
  "example_freighter =
     \<lparr>ship_addr = 2, Position = (10, 0), Cloaking = 0, IsDestroyed = False, IsDisabled = False,
      Attributes = (\<lambda>name. 0), GetGovernment = None\<rparr>"

definition example_patrol :: Ship where
  "example_patrol =
     \<lparr>ship_addr = 3, Position = (6000, 0), Cloaking = 0, IsDestroyed = False, IsDisabled = False,
      Attributes = (\<lambda>name. if name = ''cargo scan power'' then 1 else 0), GetGovernment = None\<rparr>"



text \<open>
  A run of the report queue over several ticks: in each tick the ships destroyed in that
  tick are notified, then the queue is swept.  The result lists what each sweep returned.
\<close>

fun run_ticks :: "Ship_ptr list list \<Rightarrow> WitnessSystem \<Rightarrow> WitnessReport list list \<times> WitnessSystem" where
  "run_ticks [] ws = ([], ws)"
| "run_ticks (ks # kss) ws =
     (let (ready, ws') = StepReports (foldl NotifyShipDestroyed ws ks);
          (readys, ws'') = run_ticks kss ws'
      in (ready # readys, ws''))"


section \<open>EconomicState\<close>

datatype EconomicStateType = STABLE | BOOM | BUST | SHORTAGE | SURPLUS | LOCKDOWN

datatype EconomicEventType =
    MERCHANT_DESTROYED | PIRATE_DESTROYED | TRADE_COMPLETED | LARGE_PURCHASE | LARGE_SALE
  | SMUGGLING_DETECTED | CONVOY_ATTACKED | BLOCKADE_ACTIVE | RELIEF_DELIVERED | WAR_STARTED
  | WAR_ENDED

record EconomicEvent =
  ev_date :: Date
  ev_type :: EconomicEventType
  magnitude :: int
  commodity :: string
  description :: string
  playerCaused :: bool

definition EconomicEvent_init :: EconomicEvent where
  "EconomicEvent_init =
     \<lparr>ev_date = Date_default, ev_type = TRADE_COMPLETED, magnitude = 1, commodity = [],
      description = [], playerCaused = False\<rparr>"

record EconomicConfig =
  boomRecoveryDays :: int
  bustRecoveryDays :: int
  shortageRecoveryDays :: int
  surplusRecoveryDays :: int
  lockdownRecoveryDays :: int
  merchantLossThreshold :: int
  pirateLossThreshold :: int
  tradeVolumeThreshold :: int
  smugglingThreshold :: int
  bulkTradeThreshold :: int
  boomBuyModifier :: real
  boomSellModifier :: real
  bustBuyModifier :: real
  bustSellModifier :: real
  shortageModifier :: real
  surplusModifier :: real
  blackMarketBuyModifier :: real
  blackMarketSellModifier :: real
  blackMarketDetectionChance :: real
  cascadeRadius :: int

definition EconomicConfig_init :: EconomicConfig where
  "EconomicConfig_init =
     \<lparr>boomRecoveryDays = 14, bustRecoveryDays = 14, shortageRecoveryDays = 7,
      surplusRecoveryDays = 7, lockdownRecoveryDays = 21,
      merchantLossThreshold = 10, pirateLossThreshold = 20, tradeVolumeThreshold = 5000,
      smugglingThreshold = 50, bulkTradeThreshold = 500,
      boomBuyModifier = 90 / 100, boomSellModifier = 110 / 100,
      bustBuyModifier = 110 / 100, bustSellModifier = 90 / 100,
      shortageModifier = 150 / 100, surplusModifier = 70 / 100,
      blackMarketBuyModifier = 150 / 100, blackMarketSellModifier = 60 / 100,
      blackMarketDetectionChance = 15 / 100, cascadeRadius = 2\<rparr>"

record SystemEconomy =
  state :: EconomicStateType
  affectedCommodity :: string
  stateStrength :: int
  stateChangeDate :: Date
  merchantLosses :: real
  pirateLosses :: real
  tradeVolume :: real
  smugglingLevel :: real
  recentEvents :: "EconomicEvent list"
  newsHeadline :: string
  newsDate :: Date
  config :: EconomicConfig
  significantChange :: bool

definition SystemEconomy_init :: SystemEconomy where
  "SystemEconomy_init =
     \<lparr>state = STABLE, affectedCommodity = [], stateStrength = 0, stateChangeDate = Date_default,
      merchantLosses = 0, pirateLosses = 0, tradeVolume = 0, smugglingLevel = 0,
      recentEvents = [], newsHeadline = [], newsDate = Date_default,
      config = EconomicConfig_init, significantChange = False\<rparr>"

definition MAX_EVENT_HISTORY :: nat where
  "MAX_EVENT_HISTORY = 100"

definition DAILY_COUNTER_DECAY :: real where
  "DAILY_COUNTER_DECAY = 85 / 100"

text \<open>
  Modelled from the spec: the engine's class \<open>System\<close> and the random number generator
  \<open>Random\<close> are not part of the sources.  A system has its danger, whether it is inhabited,
  its display name and its links (the neighbouring systems, in the order in which
  \<open>Links()\<close> enumerates them); the galaxy maps the address of a system to the system.
  The numbers that one call of \<open>SimulateNPCActivity\<close> draws are inputs: one field for each
  call of \<open>Random::Real()\<close> and \<open>Random::Normal()\<close> in the function, in textual order.
\<close>

record System =
  Danger :: real
  IsInhabited :: bool
  DisplayName :: string
  Links :: "System_ptr list"

type_synonym Galaxy = "System_ptr \<Rightarrow> System"

record RandomDraws =
  merchantRoll :: real
  merchantLossRoll :: real
  pirateRoll :: real
  pirateKillRoll :: real
  trafficNormal :: real

definition GetState :: "SystemEconomy \<Rightarrow> EconomicStateType" where
  "GetState e = state e"

definition GetAffectedCommodity :: "SystemEconomy \<Rightarrow> string" where
  "GetAffectedCommodity e = affectedCommodity e"

definition GetStateStrength :: "SystemEconomy \<Rightarrow> int" where
  "GetStateStrength e = stateStrength e"

definition RecordEvent :: "SystemEconomy \<Rightarrow> EconomicEvent \<Rightarrow> SystemEconomy" where
  "RecordEvent e event =
     (let events = recentEvents e @ [event];
          events = (if length events > MAX_EVENT_HISTORY then tl events else events);
          e = e\<lparr>recentEvents := events\<rparr>
      in case ev_type event of
           MERCHANT_DESTROYED \<Rightarrow> e\<lparr>merchantLosses := merchantLosses e + real_of_int (magnitude event)\<rparr>
         | PIRATE_DESTROYED \<Rightarrow> e\<lparr>pirateLosses := pirateLosses e + real_of_int (magnitude event)\<rparr>
         | TRADE_COMPLETED \<Rightarrow> e\<lparr>tradeVolume := tradeVolume e + real_of_int (magnitude event)\<rparr>
         | LARGE_PURCHASE \<Rightarrow> e\<lparr>tradeVolume := tradeVolume e + real_of_int (magnitude event)\<rparr>
         | LARGE_SALE \<Rightarrow> e\<lparr>tradeVolume := tradeVolume e + real_of_int (magnitude event)\<rparr>
         | SMUGGLING_DETECTED \<Rightarrow> e\<lparr>smugglingLevel := smugglingLevel e + real_of_int (magnitude event)\<rparr>
         | _ \<Rightarrow> e)"

text \<open>The overload of \<open>RecordEvent\<close> that builds the event from its parts.\<close>

definition RecordEvent4 ::
  "SystemEconomy \<Rightarrow> EconomicEventType \<Rightarrow> int \<Rightarrow> string \<Rightarrow> bool \<Rightarrow> SystemEconomy" where
  "RecordEvent4 e type mag comm caused =
     RecordEvent e
       (EconomicEvent_init\<lparr>ev_type := type, magnitude := mag, commodity := comm,
                           playerCaused := caused\<rparr>)"

definition GenerateNewsHeadline ::
  "SystemEconomy \<Rightarrow> EconomicStateType \<Rightarrow> EconomicStateType \<Rightarrow> Galaxy \<Rightarrow> System_ptr \<Rightarrow> SystemEconomy" where
  "GenerateNewsHeadline e oldState newState galaxy system =
     (let systemName = (if system \<noteq> nullptr then DisplayName (galaxy system) else ''local system'')
      in case newState of
           STABLE \<Rightarrow>
             if oldState = BOOM
               then e\<lparr>newsHeadline := ''Economic growth stabilizes in '' @ systemName @ ''.''\<rparr>
             else if oldState = BUST
               then e\<lparr>newsHeadline := ''Economy recovers in '' @ systemName @ '' as trade resumes.''\<rparr>
             else if oldState = LOCKDOWN
               then e\<lparr>newsHeadline := ''Trade restrictions lifted in '' @ systemName @ ''.''\<rparr>
             else e\<lparr>newsHeadline := ''Markets return to normal in '' @ systemName @ ''.''\<rparr>
         | BOOM \<Rightarrow>
             e\<lparr>newsHeadline := ''Trade flourishing in '' @ systemName @
                 ''. Merchants report record profits.''\<rparr>
         | BUST \<Rightarrow>
             e\<lparr>newsHeadline := ''Economic crisis in '' @ systemName @
                 ''. Merchants warn of convoy losses.''\<rparr>
         | SHORTAGE \<Rightarrow>
             e\<lparr>newsHeadline := ''Supply shortage reported in '' @ systemName @ ''. '' @
                 affectedCommodity e @ '' prices soaring.''\<rparr>
         | SURPLUS \<Rightarrow>
             e\<lparr>newsHeadline := ''Market glut in '' @ systemName @ ''. '' @
                 affectedCommodity e @ '' prices plummeting.''\<rparr>
         | LOCKDOWN \<Rightarrow>
             e\<lparr>newsHeadline := ''Authorities impose trade lockdown in '' @ systemName @
                 ''. Only black market operating.''\<rparr>)"

definition SimulateNPCActivity ::
  "SystemEconomy \<Rightarrow> Date \<Rightarrow> Galaxy \<Rightarrow> System_ptr \<Rightarrow> RandomDraws \<Rightarrow> SystemEconomy" where
  "SimulateNPCActivity e date galaxy system rnd =
     (if system = nullptr then e
      else let danger = Danger (galaxy system);
               e = (if danger > 0 \<and> merchantRoll rnd < danger * (1 / 1000)
                    then let losses = 1 + static_cast_int (merchantLossRoll rnd * danger * (1 / 100))
                         in e\<lparr>merchantLosses := merchantLosses e + real_of_int losses\<rparr>
                    else e);
               e = (if danger > 0 \<and> pirateRoll rnd < 1 / 10
                    then let kills = static_cast_int (pirateKillRoll rnd * 2)
                         in if kills > 0 then e\<lparr>pirateLosses := pirateLosses e + real_of_int kills\<rparr>
                            else e
                    else e)
           in if IsInhabited (galaxy system)
              then let baseTraffic = 100 + trafficNormal rnd * 50;
                       baseTraffic = (if state e = BOOM then baseTraffic * (15 / 10)
                                      else if state e = BUST then baseTraffic * (5 / 10)
                                      else if state e = LOCKDOWN then baseTraffic * (1 / 10)
                                      else baseTraffic)
                   in e\<lparr>tradeVolume := tradeVolume e + max 0 baseTraffic\<rparr>
              else e)"

definition EvaluateStateTransition ::
  "SystemEconomy \<Rightarrow> Date \<Rightarrow> Galaxy \<Rightarrow> System_ptr \<Rightarrow> bool \<times> SystemEconomy" where
  "EvaluateStateTransition e date galaxy system =
     (let oldState = state e;
          e = (if state e = STABLE \<or> state e = BUST
               then if merchantLosses e \<ge> real_of_int (merchantLossThreshold (config e))
                    then e\<lparr>state := BUST,
                           stateStrength := min 100 (static_cast_int (merchantLosses e * 10)),
                           stateChangeDate := date\<rparr>
                    else e
               else e);
          e = (if state e = STABLE \<or> state e = BOOM
               then if pirateLosses e \<ge> real_of_int (pirateLossThreshold (config e))
                    then e\<lparr>state := BOOM,
                           stateStrength := min 100 (static_cast_int (pirateLosses e * 5)),
                           stateChangeDate := date\<rparr>
                    else if tradeVolume e \<ge> real_of_int (tradeVolumeThreshold (config e))
                    then e\<lparr>state := BOOM,
                           stateStrength := min 100 (static_cast_int (tradeVolume e / 50)),
                           stateChangeDate := date\<rparr>
                    else e
               else e);
          e = (if smugglingLevel e \<ge> real_of_int (smugglingThreshold (config e))
               then e\<lparr>state := LOCKDOWN,
                      stateStrength := min 100 (static_cast_int (smugglingLevel e * 2)),
                      stateChangeDate := date\<rparr>
               else e)
      in if state e \<noteq> oldState
         then (True, GenerateNewsHeadline e oldState (state e) galaxy system)
         else (False, e))"

text \<open>
  \<open>100 / recoveryDays\<close> is the division of \<open>int\<close>, which truncates toward zero (\<open>sdiv\<close>).
\<close>

definition ApplyRecovery :: "SystemEconomy \<Rightarrow> Date \<Rightarrow> Galaxy \<Rightarrow> bool \<times> SystemEconomy" where
  "ApplyRecovery e date galaxy =
     (if state e = STABLE then (False, e)
      else let recoveryDays =
                 (case state e of
                    BOOM \<Rightarrow> boomRecoveryDays (config e)
                  | BUST \<Rightarrow> bustRecoveryDays (config e)
                  | SHORTAGE \<Rightarrow> shortageRecoveryDays (config e)
                  | SURPLUS \<Rightarrow> surplusRecoveryDays (config e)
                  | LOCKDOWN \<Rightarrow> lockdownRecoveryDays (config e)
                  | _ \<Rightarrow> 14);
               dailyRecovery = max 1 (100 sdiv recoveryDays);
               e = e\<lparr>stateStrength := max 0 (stateStrength e - dailyRecovery)\<rparr>
           in if stateStrength e \<le> 0
              then let oldState = state e;
                       e = e\<lparr>state := STABLE, affectedCommodity := [], stateChangeDate := date\<rparr>
                   in (True, GenerateNewsHeadline e oldState (state e) galaxy nullptr)
              else (False, e))"

definition StepDaily ::
  "SystemEconomy \<Rightarrow> Date \<Rightarrow> Galaxy \<Rightarrow> System_ptr \<Rightarrow> RandomDraws \<Rightarrow> bool \<times> SystemEconomy" where
  "StepDaily e date galaxy system rnd =
     (let e = e\<lparr>merchantLosses := merchantLosses e * DAILY_COUNTER_DECAY\<rparr>;
          e = e\<lparr>pirateLosses := pirateLosses e * DAILY_COUNTER_DECAY\<rparr>;
          e = e\<lparr>tradeVolume := tradeVolume e * DAILY_COUNTER_DECAY\<rparr>;
          e = e\<lparr>smugglingLevel := smugglingLevel e * DAILY_COUNTER_DECAY\<rparr>;
          e = SimulateNPCActivity e date galaxy system rnd;
          (stateChanged, e) = EvaluateStateTransition e date galaxy system;
          (stateChanged, e) = (if \<not> stateChanged \<and> state e \<noteq> STABLE
                               then ApplyRecovery e date galaxy else (stateChanged, e))
      in (stateChanged, e\<lparr>significantChange := stateChanged\<rparr>))"

definition SetState :: "SystemEconomy \<Rightarrow> EconomicStateType \<Rightarrow> string \<Rightarrow> int \<Rightarrow> SystemEconomy" where
  "SetState e newState comm strength =
     (if state e \<noteq> newState
      then e\<lparr>state := newState, stateStrength := strength, affectedCommodity := comm,
             significantChange := True\<rparr>
      else let e = e\<lparr>stateStrength := max (stateStrength e) strength\<rparr>
           in if comm \<noteq> [] then e\<lparr>affectedCommodity := comm\<rparr> else e)"


subsection \<open>Cascades\<close>

record EconomicManager =
  systemEconomies :: "System_ptr \<rightharpoonup> SystemEconomy"
  em_defaultConfig :: EconomicConfig
  blackMarketModifier :: real
  blackMarketSystems :: "System_ptr set"

definition EconomicManager_init :: EconomicManager where
  "EconomicManager_init =
     \<lparr>systemEconomies = Map.empty, em_defaultConfig = EconomicConfig_init,
      blackMarketModifier = 15 / 10, blackMarketSystems = {}\<rparr>"

text \<open>
  \<open>GetSystemEconomy(system)\<close> is \<open>systemEconomies[system]\<close>: the economy of the system, a
  default-constructed one when the map has none.  \<open>record_at\<close> is the call
  \<open>GetSystemEconomy(neighbor).RecordEvent(type, magnitude, "", false)\<close> on the global
  manager, which stores the changed economy in the map.
\<close>

definition GetSystemEconomy :: "EconomicManager \<Rightarrow> System_ptr \<Rightarrow> SystemEconomy" where
  "GetSystemEconomy mgr system =
     (case systemEconomies mgr system of Some e \<Rightarrow> e | None \<Rightarrow> SystemEconomy_init)"

definition record_at ::
  "EconomicManager \<Rightarrow> System_ptr \<Rightarrow> EconomicEventType \<Rightarrow> int \<Rightarrow> EconomicManager" where
  "record_at mgr neighbor type mag =
     mgr\<lparr>systemEconomies := (systemEconomies mgr)
            (neighbor \<mapsto> RecordEvent4 (GetSystemEconomy mgr neighbor) type mag [] False)\<rparr>"

text \<open>
  \<open>x << k\<close> on \<open>int\<close>, a 32-bit two's complement integer: the bits that leave the 32 bits
  are lost and bit 31 is the sign.
\<close>

definition shift_left :: "int \<Rightarrow> int \<Rightarrow> int" where
  "shift_left x k = signed_take_bit 31 (push_bit (nat k) x)"

text \<open>
  The \<open>for\<close> loop of \<open>PropagateEffects\<close> over the links of the current system, on the set
  of visited systems, the queue and the global manager.
\<close>

fun PropagateEffects_links ::
  "EconomicEventType \<Rightarrow> int \<Rightarrow> int \<Rightarrow> System_ptr list \<Rightarrow>
   System_ptr set \<Rightarrow> (System_ptr \<times> int) list \<Rightarrow> EconomicManager \<Rightarrow>
   System_ptr set \<times> (System_ptr \<times> int) list \<times> EconomicManager" where
  "PropagateEffects_links type mag distance [] visited toVisit mgr = (visited, toVisit, mgr)"
| "PropagateEffects_links type mag distance (neighbor # rest) visited toVisit mgr =
     (if neighbor = nullptr \<or> neighbor \<in> visited
      then PropagateEffects_links type mag distance rest visited toVisit mgr
      else let visited = insert neighbor visited;
               propagatedMagnitude = mag sdiv shift_left 1 (distance + 1)
           in if propagatedMagnitude \<le> 0
              then PropagateEffects_links type mag distance rest visited toVisit mgr
              else PropagateEffects_links type mag distance rest visited
                     (toVisit @ [(neighbor, distance + 1)])
                     (record_at mgr neighbor type propagatedMagnitude))"

text \<open>
  The \<open>while\<close> loop of \<open>PropagateEffects\<close>.  Its result is \<open>None\<close> when the loop does not
  come to an end.
\<close>

partial_function (option) PropagateEffects_loop ::
  "Galaxy \<Rightarrow> int \<Rightarrow> EconomicEventType \<Rightarrow> int \<Rightarrow>
   System_ptr set \<Rightarrow> (System_ptr \<times> int) list \<Rightarrow> EconomicManager \<Rightarrow> EconomicManager option" where
  "PropagateEffects_loop galaxy radius type mag visited toVisit mgr =
     (case toVisit of
        [] \<Rightarrow> Some mgr
      | (current, distance) # rest \<Rightarrow>
          if distance \<ge> radius
          then PropagateEffects_loop galaxy radius type mag visited rest mgr
          else (case PropagateEffects_links type mag distance (Links (galaxy current))
                       visited rest mgr of
                  (visited', toVisit', mgr') \<Rightarrow>
                    PropagateEffects_loop galaxy radius type mag visited' toVisit' mgr'))"

declare PropagateEffects_loop.simps [code]

text \<open>
  \<open>PropagateEffects\<close> is a member of \<open>SystemEconomy\<close>; of its object it reads the cascade
  radius of the configuration.
\<close>

definition PropagateEffects ::
  "SystemEconomy \<Rightarrow> Galaxy \<Rightarrow> EconomicManager \<Rightarrow> System_ptr \<Rightarrow> EconomicEventType \<Rightarrow> int \<Rightarrow>
   EconomicManager option" where
  "PropagateEffects this galaxy mgr system type mag =
     (if system = nullptr \<or> cascadeRadius (config this) \<le> 0 \<or> mag \<le> 0 then Some mgr
      else PropagateEffects_loop galaxy (cascadeRadius (config this)) type mag
             {system} [(system, 0)] mgr)"

text \<open>
  \<open>EconomicManager::RecordEvent\<close>, the entry point: the event is recorded at the system,
  and cascades from there when its type and magnitude qualify.
\<close>

definition EconomicManager_RecordEvent ::
  "EconomicManager \<Rightarrow> Galaxy \<Rightarrow> System_ptr \<Rightarrow> EconomicEventType \<Rightarrow> int \<Rightarrow> string \<Rightarrow> bool \<Rightarrow>
   EconomicManager option" where
  "EconomicManager_RecordEvent mgr galaxy system type mag comm caused =
     (if system = nullptr then Some mgr
      else let economy = RecordEvent4 (GetSystemEconomy mgr system) type mag comm caused;
               mgr = mgr\<lparr>systemEconomies := (systemEconomies mgr)(system \<mapsto> economy)\<rparr>;
               shouldCascade =
                 (case type of
                    MERCHANT_DESTROYED \<Rightarrow> True
                  | CONVOY_ATTACKED \<Rightarrow> True
                  | BLOCKADE_ACTIVE \<Rightarrow> True
                  | WAR_STARTED \<Rightarrow> True
                  | WAR_ENDED \<Rightarrow> True
                  | LARGE_PURCHASE \<Rightarrow> mag \<ge> 1000
                  | LARGE_SALE \<Rightarrow> mag \<ge> 1000
                  | SMUGGLING_DETECTED \<Rightarrow> mag \<ge> 100
                  | _ \<Rightarrow> False)
           in if shouldCascade then PropagateEffects economy galaxy mgr system type mag
              else Some mgr)"

text \<open>
  Hop distance, in the words of the specification: \<open>reach galaxy a n\<close> are the systems
  at the end of a path of \<open>n\<close> links from \<open>a\<close>, and the hop distance of a system from \<open>a\<close> is
  the least such \<open>n\<close>.  Null links lead nowhere.
\<close>

definition succs :: "Galaxy \<Rightarrow> System_ptr \<Rightarrow> System_ptr set" where
  "succs galaxy u = set (Links (galaxy u)) - {nullptr}"

fun reach :: "Galaxy \<Rightarrow> System_ptr \<Rightarrow> nat \<Rightarrow> System_ptr set" where
  "reach galaxy a 0 = {a}"
| "reach galaxy a (Suc n) = (\<Union>u \<in> reach galaxy a n. succs galaxy u)"

definition hop_distance :: "Galaxy \<Rightarrow> System_ptr \<Rightarrow> System_ptr \<Rightarrow> nat \<Rightarrow> bool" where
  "hop_distance galaxy a s d = (s \<in> reach galaxy a d \<and> (\<forall>n < d. s \<notin> reach galaxy a n))"

text \<open>
  A system at hop distance \<open>d\<close> receives an event of the cascade when \<open>d\<close> is within the
  radius and the magnitude halved \<open>d\<close> times is still positive.
\<close>

definition carries :: "int \<Rightarrow> int \<Rightarrow> nat \<Rightarrow> bool" where
  "carries mag radius d = (int d \<le> radius \<and> 0 < mag div 2 ^ d)"

text \<open>
  A ring of four systems 10 - 20 - 30 - 40 - 10, in which every system is linked to
  its two neighbours.
\<close>

definition ring_galaxy :: Galaxy where
  "ring_galaxy =
     (\<lambda>s. \<lparr>Danger = 0, IsInhabited = False, DisplayName = ''Ring'',
           Links = (if s = 10 then [20, 40] else if s = 20 then [10, 30]
                    else if s = 30 then [20, 40] else if s = 40 then [10, 30] else [])\<rparr>)"

text \<open>
  The invariant of the \<open>while\<close> loop, for a cascade from \<open>a\<close> with radius \<open>R\<close> and magnitude
  \<open>m\<close> that started with the manager \<open>mgr0\<close>, in a galaxy whose systems are all in \<open>U\<close>:
  the visited systems have a hop distance within the radius; the queue holds visited
  systems with their hop distances, in ascending order, at most two adjacent distances;
  a visited system that has left the queue and is to be expanded has all its neighbours
  visited; and the manager holds one event for every visited system whose share of the
  magnitude is positive, and is unchanged elsewhere.
\<close>

definition bfs_inv ::
  "Galaxy \<Rightarrow> System_ptr \<Rightarrow> int \<Rightarrow> EconomicEventType \<Rightarrow> int \<Rightarrow> EconomicManager \<Rightarrow> System_ptr set \<Rightarrow>
   System_ptr set \<Rightarrow> (System_ptr \<times> int) list \<Rightarrow> EconomicManager \<Rightarrow> bool" where
  "bfs_inv g a R ty m mgr0 U V Q M \<longleftrightarrow>
     a \<in> V \<and> nullptr \<notin> V \<and> V \<subseteq> U \<and>
     (\<forall>s\<in>V. \<exists>d. hop_distance g a s d \<and> int d \<le> R) \<and>
     distinct (map fst Q) \<and>
     (\<forall>(s, l)\<in>set Q. s \<in> V \<and> 0 \<le> l \<and> hop_distance g a s (nat l) \<and> carries m R (nat l)) \<and>
     sorted (map snd Q) \<and>
     (\<forall>(s, l)\<in>set Q. \<forall>(s', l')\<in>set Q. l' \<le> l + 1) \<and>
     (\<forall>s\<in>V. s \<notin> fst ` set Q \<longrightarrow>
        (\<forall>d. hop_distance g a s d \<longrightarrow> carries m R d \<longrightarrow> int d < R \<longrightarrow> succs g s \<subseteq> V)) \<and>
     (\<forall>s d. hop_distance g a s d \<longrightarrow>
        systemEconomies M s =
          (if s \<in> V \<and> 1 \<le> d \<and> 0 < m div 2 ^ d
           then Some (RecordEvent4 (GetSystemEconomy mgr0 s) ty (m div 2 ^ d) [] False)
           else systemEconomies mgr0 s)) \<and>
     (\<forall>s. s \<notin> V \<longrightarrow> systemEconomies M s = systemEconomies mgr0 s) \<and>
     M\<lparr>systemEconomies := systemEconomies mgr0\<rparr> = mgr0"


subsection \<open>Scenario data\<close>

text \<open>
  A galaxy of quiet systems (no danger, uninhabited, no links), for which
  \<open>SimulateNPCActivity\<close> does nothing, a record of random draws, and a day on which \<open>n\<close>
  merchants are destroyed by the player, one event of magnitude 1 each.
\<close>

definition quiet_galaxy :: Galaxy where
  "quiet_galaxy =
     (\<lambda>_. \<lparr>Danger = 0, IsInhabited = False, DisplayName = ''Rutilicus'', Links = []\<rparr>)"

definition no_draws :: RandomDraws where
  "no_draws =
     \<lparr>merchantRoll = 0, merchantLossRoll = 0, pirateRoll = 0, pirateKillRoll = 0,
      trafficNormal = 0\<rparr>"



section \<open>Properties of the reputation engine\<close>

text \<open>
  C1.  \<open>GetThreshold\<close> is monotonic non-decreasing: a larger standing is never classified
  into a lower threshold, in the order WAR < HOSTILE < UNFRIENDLY < NEUTRAL < FRIENDLY <
  ALLIED < HONORED (the order of the enumerators' values).  The classification is a function
  of the standing alone: it reads no state and changes none, so classifying the same
  standing twice gives the same threshold twice, and \<open>CrossesThreshold\<close> reports no
  crossing between a standing and itself.
\<close>

theorem GetThreshold_mono:
  "(v1 \<le> v2 \<longrightarrow> threshold_int (GetThreshold v1) \<le> threshold_int (GetThreshold v2)) \<and>
   CrossesThreshold v v = (False, GetThreshold v, GetThreshold v)"
  by (simp add: GetThreshold_def CrossesThreshold_def)

theorem GetThreshold_mono_witness:
  "(20::real) \<le> 30 \<and> GetThreshold 20 = NEUTRAL \<and> GetThreshold 30 = FRIENDLY
   \<and> threshold_int (GetThreshold 20) \<le> threshold_int (GetThreshold 30)
   \<and> CrossesThreshold 20 20 = (False, NEUTRAL, NEUTRAL)"
  using GetThreshold_mono [of 20 30 20] by (simp add: GetThreshold_def)

text \<open>
  C2.  A standing strictly above the neutral point of its government never decays below
  the neutral point, and a standing strictly below it never recovers above it, whatever
  the configured rates are.
\<close>

theorem ApplyDecay_no_overshoot:
  "(neutralPoint (GetConfig m gov) < currentRep \<longrightarrow>
      neutralPoint (GetConfig m gov) \<le> ApplyDecay m gov currentRep currentDate) \<and>
   (currentRep < neutralPoint (GetConfig m gov) \<longrightarrow>
      ApplyDecay m gov currentRep currentDate \<le> neutralPoint (GetConfig m gov))"
  by (simp add: ApplyDecay_def Let_def)

theorem ApplyDecay_no_overshoot_witness:
  "neutralPoint (GetConfig (SetConfig ReputationManager_init 1
       (ReputationConfig_init\<lparr>positiveDecayRate := 2, negativeRecoveryRate := 3\<rparr>)) 1) < 20 \<and>
   ApplyDecay (SetConfig ReputationManager_init 1
       (ReputationConfig_init\<lparr>positiveDecayRate := 2, negativeRecoveryRate := 3\<rparr>)) 1 20 7 = 0 \<and>
   -20 < neutralPoint (GetConfig (SetConfig ReputationManager_init 1
       (ReputationConfig_init\<lparr>positiveDecayRate := 2, negativeRecoveryRate := 3\<rparr>)) 1) \<and>
   ApplyDecay (SetConfig ReputationManager_init 1
       (ReputationConfig_init\<lparr>positiveDecayRate := 2, negativeRecoveryRate := 3\<rparr>)) 1 (-20) 7 = 0"
  using ApplyDecay_no_overshoot [of "SetConfig ReputationManager_init 1
       (ReputationConfig_init\<lparr>positiveDecayRate := 2, negativeRecoveryRate := 3\<rparr>)" 1 20 7]
    ApplyDecay_no_overshoot [of "SetConfig ReputationManager_init 1
       (ReputationConfig_init\<lparr>positiveDecayRate := 2, negativeRecoveryRate := 3\<rparr>)" 1 "-20" 7]
  by (simp add: ApplyDecay_def GetEffectiveDecayRate_def GetEffectiveRecoveryRate_def GetConfig_def
      SetConfig_def ReputationManager_init_def ReputationConfig_init_def nullptr_def Let_def)

text \<open>
  C10.  \<open>HasUnforgivenAtrocity\<close> is true exactly when the government has a recorded state
  whose atrocity flag is set and its effective configuration does not forgive atrocities.
  So for a government whose configuration forgives atrocities the answer is false in every
  state of the manager, also right after \<open>RecordAtrocity\<close> and after a daily step,
  whatever the date and the configured forgiveness window are.
\<close>

theorem HasUnforgivenAtrocity_forgiving:
  "(HasUnforgivenAtrocity m gov \<longleftrightarrow>
      (\<exists>st. states m gov = Some st \<and> hasCommittedAtrocity st) \<and>
      \<not> forgivesAtrocities (GetConfig m gov)) \<and>
   (forgivesAtrocities (GetConfig m gov) \<longrightarrow>
      \<not> HasUnforgivenAtrocity m gov \<and>
      \<not> HasUnforgivenAtrocity (RecordAtrocity m gov date) gov \<and>
      \<not> HasUnforgivenAtrocity (fst (StepDaily_entry m gov reputation currentDate)) gov)"
proof -
  have "GetConfig (fst (StepDaily_entry m gov reputation currentDate)) gov = GetConfig m gov"
    by (simp add: StepDaily_entry_def GetConfig_def Let_def split: option.splits prod.splits)
  then have "forgivesAtrocities (GetConfig m gov) \<Longrightarrow>
      \<not> HasUnforgivenAtrocity (fst (StepDaily_entry m gov reputation currentDate)) gov"
    by (simp add: HasUnforgivenAtrocity_def split: option.splits)
  then show ?thesis
    by (auto simp: HasUnforgivenAtrocity_def RecordAtrocity_def GetConfig_def Let_def
        split: option.splits)
qed

theorem HasUnforgivenAtrocity_forgiving_witness:
  "forgivesAtrocities (GetConfig (SetConfig ReputationManager_init 1
       (ReputationConfig_init\<lparr>forgivesAtrocities := True\<rparr>)) 1) \<and>
   hasCommittedAtrocity (GetOrCreateState (RecordAtrocity (SetConfig ReputationManager_init 1
       (ReputationConfig_init\<lparr>forgivesAtrocities := True\<rparr>)) 1 100) 1) \<and>
   \<not> HasUnforgivenAtrocity (RecordAtrocity (SetConfig ReputationManager_init 1
       (ReputationConfig_init\<lparr>forgivesAtrocities := True\<rparr>)) 1 100) 1 \<and>
   HasUnforgivenAtrocity (RecordAtrocity ReputationManager_init 1 100) 1"
  using HasUnforgivenAtrocity_forgiving [of "SetConfig ReputationManager_init 1
       (ReputationConfig_init\<lparr>forgivesAtrocities := True\<rparr>)" 1 100 0 100]
  by (simp add: HasUnforgivenAtrocity_def RecordAtrocity_def GetOrCreateState_def GetConfig_def
      SetConfig_def ReputationManager_init_def ReputationConfig_init_def
      GovernmentReputationState_init_def nullptr_def Let_def)

section \<open>Properties of the economic state machine\<close>

lemma GenerateNewsHeadline_fields:
  "state (GenerateNewsHeadline e a b g s) = state e"
  "affectedCommodity (GenerateNewsHeadline e a b g s) = affectedCommodity e"
  "stateStrength (GenerateNewsHeadline e a b g s) = stateStrength e"
  by (simp_all add: GenerateNewsHeadline_def Let_def split: EconomicStateType.splits)




lemma SimulateNPCActivity_quiet:
  "Danger (g s) = 0 \<Longrightarrow> \<not> IsInhabited (g s) \<Longrightarrow> SimulateNPCActivity e d g s r = e"
  by (simp add: SimulateNPCActivity_def Let_def)

lemma EvaluateStateTransition_none:
  "state e = STABLE \<Longrightarrow>
   merchantLosses e < real_of_int (merchantLossThreshold (config e)) \<Longrightarrow>
   pirateLosses e < real_of_int (pirateLossThreshold (config e)) \<Longrightarrow>
   tradeVolume e < real_of_int (tradeVolumeThreshold (config e)) \<Longrightarrow>
   smugglingLevel e < real_of_int (smugglingThreshold (config e)) \<Longrightarrow>
   EvaluateStateTransition e d g s = (False, e)"
  by (simp add: EvaluateStateTransition_def Let_def)

text \<open>
  A day on which nothing happens: in a quiet system, a stable economy whose decayed
  counters are below their thresholds only has its counters decayed.
\<close>

lemma StepDaily_quiet:
  assumes "Danger (g s) = 0" "\<not> IsInhabited (g s)" "state e = STABLE"
    "merchantLosses e * DAILY_COUNTER_DECAY < real_of_int (merchantLossThreshold (config e))"
    "pirateLosses e * DAILY_COUNTER_DECAY < real_of_int (pirateLossThreshold (config e))"
    "tradeVolume e * DAILY_COUNTER_DECAY < real_of_int (tradeVolumeThreshold (config e))"
    "smugglingLevel e * DAILY_COUNTER_DECAY < real_of_int (smugglingThreshold (config e))"
  shows "StepDaily e d g s r =
    (False, e\<lparr>merchantLosses := merchantLosses e * DAILY_COUNTER_DECAY,
              pirateLosses := pirateLosses e * DAILY_COUNTER_DECAY,
              tradeVolume := tradeVolume e * DAILY_COUNTER_DECAY,
              smugglingLevel := smugglingLevel e * DAILY_COUNTER_DECAY,
              significantChange := False\<rparr>)"
proof -
  define e1 where "e1 = e\<lparr>merchantLosses := merchantLosses e * DAILY_COUNTER_DECAY,
     pirateLosses := pirateLosses e * DAILY_COUNTER_DECAY,
     tradeVolume := tradeVolume e * DAILY_COUNTER_DECAY,
     smugglingLevel := smugglingLevel e * DAILY_COUNTER_DECAY\<rparr>"
  have sim: "SimulateNPCActivity e1 d g s r = e1"
    by (rule SimulateNPCActivity_quiet) (use assms in simp_all)
  have ev: "EvaluateStateTransition e1 d g s = (False, e1)"
    by (rule EvaluateStateTransition_none) (use assms in \<open>simp_all add: e1_def\<close>)
  have "StepDaily e d g s r = (False, e1\<lparr>significantChange := False\<rparr>)"
    using sim ev assms(3) by (simp add: StepDaily_def Let_def e1_def [symmetric]) (simp add: e1_def)
  then show ?thesis by (simp add: e1_def)
qed


text \<open>
  C4.  When \<open>ApplyRecovery\<close> is applied to an economy that is not stable and leaves a
  state strength of 0 (or less), the economy is stable afterwards and its affected
  commodity is the empty string.
\<close>

theorem ApplyRecovery_zero_stable:
  "state e \<noteq> STABLE \<Longrightarrow> GetStateStrength (snd (ApplyRecovery e date galaxy)) \<le> 0 \<Longrightarrow>
   GetState (snd (ApplyRecovery e date galaxy)) = STABLE \<and>
   GetAffectedCommodity (snd (ApplyRecovery e date galaxy)) = []"
  by (auto simp: ApplyRecovery_def Let_def GetState_def GetAffectedCommodity_def
      GetStateStrength_def GenerateNewsHeadline_fields split: if_splits)

theorem ApplyRecovery_zero_stable_witness:
  "state (SetState SystemEconomy_init SHORTAGE ''Food'' 10) \<noteq> STABLE \<and>
   GetAffectedCommodity (SetState SystemEconomy_init SHORTAGE ''Food'' 10) = ''Food'' \<and>
   GetStateStrength
     (snd (ApplyRecovery (SetState SystemEconomy_init SHORTAGE ''Food'' 10) 5 quiet_galaxy)) \<le> 0 \<and>
   GetState
     (snd (ApplyRecovery (SetState SystemEconomy_init SHORTAGE ''Food'' 10) 5 quiet_galaxy)) = STABLE \<and>
   GetAffectedCommodity
     (snd (ApplyRecovery (SetState SystemEconomy_init SHORTAGE ''Food'' 10) 5 quiet_galaxy)) = []"
proof -
  define e where "e = SetState SystemEconomy_init SHORTAGE ''Food'' 10"
  have f: "state e = SHORTAGE" "stateStrength e = 10" "affectedCommodity e = ''Food''"
    "shortageRecoveryDays (config e) = 7"
    by (simp_all add: e_def SetState_def SystemEconomy_init_def EconomicConfig_init_def)
  have "stateStrength (snd (ApplyRecovery e 5 quiet_galaxy)) \<le> 0"
    using f by (simp add: ApplyRecovery_def Let_def GenerateNewsHeadline_fields signed_divide_int_def)
  then show ?thesis
    using ApplyRecovery_zero_stable [of e 5 quiet_galaxy] f
    by (simp add: e_def [symmetric] GetStateStrength_def GetAffectedCommodity_def)
qed




text \<open>
  C8.  The strength is not kept within 0..100 and the counters are not kept non-negative
  by the public operations: \<open>SetState\<close> stores the strength it is given, here 500, and
  \<open>RecordEvent\<close> adds the magnitude it is given, here -10, which the daily decay turns
  into a merchant-loss counter of -8.5.
\<close>

theorem SetState_strength_not_clamped:
  "GetStateStrength (SetState SystemEconomy_init BOOM [] 500) = 500 \<and>
   merchantLosses (snd (StepDaily (RecordEvent4 SystemEconomy_init MERCHANT_DESTROYED (-10) [] True)
       1 quiet_galaxy 1 no_draws)) = - (85 / 10)"
proof -
  define e where "e = RecordEvent4 SystemEconomy_init MERCHANT_DESTROYED (-10) [] True"
  have f: "merchantLosses e = -10" "pirateLosses e = 0" "tradeVolume e = 0" "smugglingLevel e = 0"
    "state e = STABLE" "config e = EconomicConfig_init"
    by (simp_all add: e_def RecordEvent4_def RecordEvent_def EconomicEvent_init_def Let_def
        SystemEconomy_init_def)
  have "merchantLosses (snd (StepDaily e 1 quiet_galaxy 1 no_draws)) = - (85 / 10)"
    by (subst StepDaily_quiet)
       (simp_all add: f quiet_galaxy_def EconomicConfig_init_def DAILY_COUNTER_DECAY_def)
  then show ?thesis
    by (simp add: e_def SetState_def GetStateStrength_def SystemEconomy_init_def)
qed

section \<open>Properties of the witness system\<close>

lemma StepReports_loop_append:
  "StepReports_loop (xs @ ys) =
     (fst (StepReports_loop xs) @ fst (StepReports_loop ys),
      snd (StepReports_loop xs) @ snd (StepReports_loop ys))"
  by (induction xs) (auto simp: Let_def split: prod.splits)

lemma StepReports_loop_discard:
  "AllWitnessesEliminated r \<Longrightarrow> StepReports_loop (xs @ r # ys) = StepReports_loop (xs @ ys)"
  by (simp add: StepReports_loop_append [of xs "r # ys"] StepReports_loop_append [of xs ys])

lemma StepReports_eq:
  "StepReports ws =
     (fst (StepReports_loop (pendingReports ws)),
      ws\<lparr>pendingReports := snd (StepReports_loop (pendingReports ws))\<rparr>)"
  by (simp add: StepReports_def split: prod.splits)

lemma pending_foldl_Notify:
  "pendingReports (foldl NotifyShipDestroyed ws ks) =
     map (\<lambda>r. foldl (\<lambda>r k. snd (EliminateWitness r k)) r ks) (pendingReports ws)"
  by (induction ks arbitrary: ws) (simp_all add: NotifyShipDestroyed_def comp_def)



lemma foldl_Eliminate_unsuppressible:
  "\<not> canBeSuppressed r \<Longrightarrow> foldl (\<lambda>r k. snd (EliminateWitness r k)) r ks = r"
  by (induction ks) (simp_all add: EliminateWitness_def)






text \<open>
  Over several ticks: a report that is not suppressible and is alone in the queue, with a
  countdown of \<open>n \<ge> 1\<close> frames, is returned by the \<open>n\<close>-th sweep and by no earlier one,
  whichever ships are destroyed in the meantime.
\<close>

lemma unsuppressible_report_matures:
  "\<not> canBeSuppressed r \<Longrightarrow> kss \<noteq> [] \<Longrightarrow> framesRemaining r = int (length kss) \<Longrightarrow>
   pendingReports ws = [r] \<Longrightarrow>
   fst (run_ticks kss ws) = replicate (length kss - 1) [] @ [[r\<lparr>framesRemaining := 0\<rparr>]] \<and>
   pendingReports (snd (run_ticks kss ws)) = []"
proof (induction kss arbitrary: r ws)
  case Nil
  then show ?case by simp
next
  case (Cons ks kss)
  have p: "pendingReports (foldl NotifyShipDestroyed ws ks) = [r]"
    using Cons.prems by (simp add: pending_foldl_Notify foldl_Eliminate_unsuppressible)
  have na: "\<not> AllWitnessesEliminated r"
    using Cons.prems by (simp add: AllWitnessesEliminated_def)
  show ?case
  proof (cases kss)
    case Nil
    then have "framesRemaining r = 1" using Cons.prems by simp
    then show ?thesis
      using Nil p na by (simp add: StepReports_eq Step_def Let_def)
  next
    case (Cons ks' kss')
    define r' where "r' = r\<lparr>framesRemaining := framesRemaining r - 1\<rparr>"
    define ws' where "ws' = snd (StepReports (foldl NotifyShipDestroyed ws ks))"
    have fr: "framesRemaining r > 1" using Cons Cons.prems by simp
    have st: "StepReports (foldl NotifyShipDestroyed ws ks) = ([], ws')" "pendingReports ws' = [r']"
      using p na fr by (simp_all add: ws'_def r'_def StepReports_eq Step_def Let_def)
    have "fst (run_ticks kss ws') =
         replicate (length kss - 1) [] @ [[r'\<lparr>framesRemaining := 0\<rparr>]] \<and>
       pendingReports (snd (run_ticks kss ws')) = []"
      using Cons.prems Cons st(2) by (intro Cons.IH) (simp_all add: r'_def)
    then show ?thesis
      using st Cons by (simp add: r'_def split: prod.splits)
  qed
qed

text \<open>
  C9.  A report that is queued while it is suppressible and its list of active witnesses
  is empty, as the constructor of \<open>WitnessReport\<close> leaves it, is dropped by the next sweep:
  \<open>StepReports\<close> returns and keeps exactly what it would if the report had never been
  queued, whatever the countdown of the report is and although no witness was eliminated.
\<close>

theorem empty_witness_list_discarded:
  "canBeSuppressed r \<Longrightarrow> activeWitnesses r = [] \<Longrightarrow>
   StepReports (QueueReport ws r) = StepReports ws"
  using StepReports_loop_discard [of r "pendingReports ws" "[]"]
  by (simp add: StepReports_eq QueueReport_def AllWitnessesEliminated_def)

theorem empty_witness_list_discarded_witness:
  "canBeSuppressed (WitnessReport_ctor nullptr nullptr 0 2 nullptr 5) \<and>
   activeWitnesses (WitnessReport_ctor nullptr nullptr 0 2 nullptr 5) = [] \<and>
   pendingReports (QueueReport WitnessSystem_init (WitnessReport_ctor nullptr nullptr 0 2 nullptr 5))
     = [WitnessReport_ctor nullptr nullptr 0 2 nullptr 5] \<and>
   StepReports (QueueReport WitnessSystem_init (WitnessReport_ctor nullptr nullptr 0 2 nullptr 5))
     = ([], WitnessSystem_init)"
  using empty_witness_list_discarded
    [of "WitnessReport_ctor nullptr nullptr 0 2 nullptr 5" WitnessSystem_init]
  by (simp add: WitnessReport_ctor_def QueueReport_def WitnessSystem_init_def StepReports_def)

lemma Distance_x_axis: "Distance (x, 0) (0, 0) = \<bar>x\<bar>"
  by (simp add: Distance_def)

lemma example_ships:
  "HasEnhancedSensors example_patrol" "\<not> HasEnhancedSensors example_raider"
  "\<not> HasEnhancedSensors example_freighter"
  "Distance (Position example_patrol) (0, 0) = 6000"
  "Distance (Position example_raider) (0, 0) = 0"
  "Distance (Position example_freighter) (0, 0) = 10"
  by (simp_all add: example_patrol_def example_raider_def example_freighter_def
      HasEnhancedSensors_def Distance_x_axis)

text \<open>
  C7.  A call of \<open>CheckWitnesses\<close> that leaves \<open>customRange\<close> to its default argument
  does not apply the sensor multiplier.  The patrol ship is neither perpetrator nor
  victim, is intact, carries a scanner, is 6000 units from the event, which is within the
  base range times the sensor multiplier (\<open>GetWitnessRange\<close> gives 7500), is not cloaked,
  and neither is the perpetrator.  Still the default call does not include it: the default
  custom range, 5000, is positive and replaces the range that \<open>GetWitnessRange\<close> computed.
  With a custom range of 0, which leaves that range in force, the ship is included.
\<close>

theorem CheckWitnesses_default_range_ignores_sensors:
  "\<not> same_ship example_patrol (Some example_raider) \<and>
   \<not> same_ship example_patrol (Some example_freighter) \<and>
   \<not> IsDestroyed example_patrol \<and> \<not> IsDisabled example_patrol \<and>
   HasEnhancedSensors example_patrol \<and>
   GetWitnessRange example_patrol = 7500 \<and>
   Distance (Position example_patrol) (0, 0) = 6000 \<and>
   Cloaking example_patrol < OBSERVER_CLOAK_THRESHOLD \<and>
   Cloaking example_raider < CLOAK_WITNESS_THRESHOLD \<and>
   customRange_default = 5000 \<and>
   witnesses (CheckWitnesses (0, 0) (Some example_raider) (Some example_freighter)
      [example_patrol] customRange_default) = [] \<and>
   map wi_ship (witnesses (CheckWitnesses (0, 0) (Some example_raider) (Some example_freighter)
      [example_patrol] 0)) = [3]"
  using example_ships
  by (simp add: CheckWitnesses_def CheckWitnesses_step_def CanWitness_def WitnessResult_init_def
      customRange_default_def same_ship_def Let_def AddWitness_def GetWitnessRange_def
      DEFAULT_WITNESS_RANGE_def SENSOR_RANGE_MULTIPLIER_def OBSERVER_CLOAK_THRESHOLD_def
      CLOAK_WITNESS_THRESHOLD_def)
    (simp add: example_patrol_def example_raider_def example_freighter_def)


section \<open>Properties of the cascade\<close>

lemma shift_left_1_small:
  assumes "k \<le> 30" shows "shift_left 1 (int k) = 2 ^ k"
proof -
  have "(2::int) ^ k < 2 ^ 31" using assms by (intro power_strict_increasing) simp_all
  moreover have "- (2 ^ 31) \<le> (2::int) ^ k" by (rule order_trans [of _ 0]) simp_all
  ultimately have "signed_take_bit 31 ((2::int) ^ k) = 2 ^ k"
    by (simp only: signed_take_bit_int_eq_self_iff)
  then show ?thesis by (simp add: shift_left_def push_bit_of_1)
qed

lemma shift_left_1_31: "shift_left 1 31 = - (2 ^ 31)"
  by (simp add: shift_left_def)

lemma shift_left_1_big:
  assumes "32 \<le> k" shows "shift_left 1 (int k) = 0"
proof -
  have "(2::int) ^ 32 dvd 2 ^ k" using assms by (rule le_imp_power_dvd)
  then have "((2::int) ^ k + 2 ^ 31) mod 2 ^ 32 = 2 ^ 31 mod 2 ^ 32"
    by (simp add: mod_add_left_eq [symmetric, of "2 ^ k"] dvd_imp_mod_0 del: mod_add_left_eq)
  then have "take_bit 32 ((2::int) ^ k + 2 ^ 31) = 2 ^ 31"
    by (simp add: take_bit_eq_mod)
  then show ?thesis
    by (simp add: shift_left_def push_bit_of_1 signed_take_bit_eq_take_bit_shift)
qed

text \<open>
  For a magnitude that is a positive \<open>int\<close>, the quotient by the shifted 1 is the magnitude
  halved \<open>d + 1\<close> times, also where the shift overflows.
\<close>

lemma propagated_magnitude:
  assumes "0 < m" "m < 2 ^ 31"
  shows "m sdiv shift_left 1 (int d + 1) = m div 2 ^ (d + 1)"
proof -
  consider "d + 1 \<le> 30" | "d + 1 = 31" | "32 \<le> d + 1" by linarith
  then show ?thesis
  proof cases
    case 1
    have "shift_left 1 (int (d + 1)) = 2 ^ (d + 1)" using 1 by (rule shift_left_1_small)
    then show ?thesis using assms by (simp add: signed_divide_int_def add.commute)
  next
    case 2
    then have d: "d = 30" by simp
    have "m div 2 ^ 31 = 0" using assms by simp
    then show ?thesis using assms by (simp add: d shift_left_1_31 signed_divide_int_def)
  next
    case 3
    have "shift_left 1 (int (d + 1)) = 0" using 3 by (rule shift_left_1_big)
    moreover have "m < 2 ^ (d + 1)"
      using assms(2) 3 power_increasing [of 31 "d + 1" "2::int"] by simp
    ultimately show ?thesis using assms by (simp add: add.commute)
  qed
qed

lemma reach_step: "u \<in> reach g a n \<Longrightarrow> v \<in> succs g u \<Longrightarrow> v \<in> reach g a (Suc n)"
  by auto

lemma hop_distance_unique: "hop_distance g a s d \<Longrightarrow> hop_distance g a s d' \<Longrightarrow> d = d'"
  unfolding hop_distance_def by (meson linorder_neqE_nat)

lemma hop_distance_0 [simp]: "hop_distance g a s 0 \<longleftrightarrow> s = a"
  by (simp add: hop_distance_def)

lemma reach_hop_distance:
  assumes "s \<in> reach g a n"
  shows "\<exists>d \<le> n. hop_distance g a s d"
proof -
  define d where "d = (LEAST k. s \<in> reach g a k)"
  have "s \<in> reach g a d" unfolding d_def using assms by (rule LeastI)
  moreover have "d \<le> n" unfolding d_def using assms by (rule Least_le)
  moreover have "\<forall>k < d. s \<notin> reach g a k"
    unfolding d_def using not_less_Least by blast
  ultimately show ?thesis unfolding hop_distance_def by blast
qed

lemma hop_distance_pred:
  assumes "hop_distance g a s (Suc d)"
  shows "\<exists>u. hop_distance g a u d \<and> s \<in> succs g u"
proof -
  from assms obtain u where u: "u \<in> reach g a d" "s \<in> succs g u"
    by (auto simp: hop_distance_def)
  from reach_hop_distance [OF u(1)] obtain k where k: "k \<le> d" "hop_distance g a u k" by blast
  have "k = d"
  proof (rule ccontr)
    assume "k \<noteq> d"
    with k have "Suc k < Suc d" by simp
    moreover have "s \<in> reach g a (Suc k)"
      using k(2) u(2) by (intro reach_step [of u]) (simp_all add: hop_distance_def)
    ultimately show False using assms unfolding hop_distance_def by blast
  qed
  with k u show ?thesis by blast
qed

lemma carries_Suc: 
  assumes "carries m R (Suc d)" shows "carries m R d"
proof -
  have "m div 2 ^ Suc d = m div (2 ^ d * 2)" by (simp add: mult.commute)
  also have "\<dots> = m div 2 ^ d div 2" by (rule zdiv_zmult2_eq) simp
  finally have "m div 2 ^ Suc d = m div 2 ^ d div 2" .
  with assms show ?thesis unfolding carries_def
    by (cases "0 < m div 2 ^ d") auto
qed

lemma carries_le: "carries m R d \<Longrightarrow> d' \<le> d \<Longrightarrow> carries m R d'"
  by (induction d) (auto simp: le_Suc_eq dest: carries_Suc)

lemma links_result:
  "\<exists>fresh. distinct fresh \<and> set fresh = (set ns - {nullptr}) - V \<and>
     PropagateEffects_links ty m l ns V Q M =
       (V \<union> set fresh,
        Q @ (if 0 < m sdiv shift_left 1 (l + 1) then map (\<lambda>v. (v, l + 1)) fresh else []),
        (if 0 < m sdiv shift_left 1 (l + 1)
         then foldl (\<lambda>M v. record_at M v ty (m sdiv shift_left 1 (l + 1))) M fresh else M))"
proof (induction ns arbitrary: V Q M)
  case Nil
  show ?case by (rule exI [of _ "[]"]) simp
next
  case (Cons n ns)
  show ?case
  proof (cases "n = nullptr \<or> n \<in> V")
    case True
    from Cons.IH [of V Q M] obtain fresh where f: "distinct fresh"
      "set fresh = (set ns - {nullptr}) - V"
      "PropagateEffects_links ty m l ns V Q M =
       (V \<union> set fresh,
        Q @ (if 0 < m sdiv shift_left 1 (l + 1) then map (\<lambda>v. (v, l + 1)) fresh else []),
        (if 0 < m sdiv shift_left 1 (l + 1)
         then foldl (\<lambda>M v. record_at M v ty (m sdiv shift_left 1 (l + 1))) M fresh else M))"
      by blast
    have "set fresh = (set (n # ns) - {nullptr}) - V" using True f(2) by auto
    with f(1,3) True show ?thesis by (intro exI [of _ fresh]) simp
  next
    case False
    define P where "P = m sdiv shift_left 1 (l + 1)"
    define Q1 where "Q1 = (if 0 < P then Q @ [(n, l + 1)] else Q)"
    define M1 where "M1 = (if 0 < P then record_at M n ty P else M)"
    from Cons.IH [of "insert n V" Q1 M1] obtain fresh where f: "distinct fresh"
      "set fresh = (set ns - {nullptr}) - insert n V"
      "PropagateEffects_links ty m l ns (insert n V) Q1 M1 =
       (insert n V \<union> set fresh,
        Q1 @ (if 0 < P then map (\<lambda>v. (v, l + 1)) fresh else []),
        (if 0 < P then foldl (\<lambda>M v. record_at M v ty P) M1 fresh else M1))"
      unfolding P_def by blast
    have 1: "distinct (n # fresh)" using f(1,2) by simp
    have 2: "set (n # fresh) = (set (n # ns) - {nullptr}) - V" using False f(2) by auto
    have 3: "PropagateEffects_links ty m l (n # ns) V Q M =
        PropagateEffects_links ty m l ns (insert n V) Q1 M1"
      using False by (simp add: Let_def P_def Q1_def M1_def)
    have 4: "PropagateEffects_links ty m l (n # ns) V Q M =
       (V \<union> set (n # fresh),
        Q @ (if 0 < P then map (\<lambda>v. (v, l + 1)) (n # fresh) else []),
        (if 0 < P then foldl (\<lambda>M v. record_at M v ty P) M (n # fresh) else M))"
      unfolding 3 f(3) by (simp add: Q1_def M1_def)
    show ?thesis
      using 1 2 4 unfolding P_def by (intro exI [of _ "n # fresh"]) blast
  qed
qed

lemma foldl_record_at:
  "distinct fresh \<Longrightarrow>
   systemEconomies (foldl (\<lambda>M v. record_at M v ty P) M fresh) s =
     (if s \<in> set fresh then Some (RecordEvent4 (GetSystemEconomy M s) ty P [] False)
      else systemEconomies M s)"
  by (induction fresh arbitrary: M) (auto simp: record_at_def GetSystemEconomy_def)

lemma foldl_record_at_rest:
  "(foldl (\<lambda>M v. record_at M v ty P) M fresh)\<lparr>systemEconomies := x\<rparr> = M\<lparr>systemEconomies := x\<rparr>"
  by (induction fresh arbitrary: M) (simp_all add: record_at_def)

lemma bfs_invD:
  assumes "bfs_inv g a R ty m mgr0 U V Q M"
  shows "a \<in> V" and "nullptr \<notin> V" and "V \<subseteq> U"
    and "\<And>s. s \<in> V \<Longrightarrow> \<exists>d. hop_distance g a s d \<and> int d \<le> R"
    and "distinct (map fst Q)"
    and "\<And>s l. (s, l) \<in> set Q \<Longrightarrow>
           s \<in> V \<and> 0 \<le> l \<and> hop_distance g a s (nat l) \<and> carries m R (nat l)"
    and "sorted (map snd Q)"
    and "\<And>s l s' l'. (s, l) \<in> set Q \<Longrightarrow> (s', l') \<in> set Q \<Longrightarrow> l' \<le> l + 1"
    and "\<And>s d. s \<in> V \<Longrightarrow> s \<notin> fst ` set Q \<Longrightarrow> hop_distance g a s d \<Longrightarrow> carries m R d \<Longrightarrow>
           int d < R \<Longrightarrow> succs g s \<subseteq> V"
    and "\<And>s d. hop_distance g a s d \<Longrightarrow>
        systemEconomies M s =
          (if s \<in> V \<and> 1 \<le> d \<and> 0 < m div 2 ^ d
           then Some (RecordEvent4 (GetSystemEconomy mgr0 s) ty (m div 2 ^ d) [] False)
           else systemEconomies mgr0 s)"
    and "\<And>s. s \<notin> V \<Longrightarrow> systemEconomies M s = systemEconomies mgr0 s"
    and "M\<lparr>systemEconomies := systemEconomies mgr0\<rparr> = mgr0"
proof -
  note inv = assms [unfolded bfs_inv_def]
  show "a \<in> V" using inv by (elim conjE)
  show "nullptr \<notin> V" using inv by (elim conjE)
  show "V \<subseteq> U" using inv by (elim conjE)
  show "\<exists>d. hop_distance g a s d \<and> int d \<le> R" if "s \<in> V" for s
    using inv that by (elim conjE) (rule bspec)
  show "distinct (map fst Q)" using inv by (elim conjE)
  show "s \<in> V \<and> 0 \<le> l \<and> hop_distance g a s (nat l) \<and> carries m R (nat l)"
    if "(s, l) \<in> set Q" for s l
  proof -
    have "\<forall>(s, l)\<in>set Q. s \<in> V \<and> 0 \<le> l \<and> hop_distance g a s (nat l) \<and> carries m R (nat l)"
      using inv by (elim conjE)
    with that show ?thesis by (rule_tac prod.case [THEN iffD1], rule_tac bspec)
  qed
  show "sorted (map snd Q)" using inv by (elim conjE)
  show "l' \<le> l + 1" if "(s, l) \<in> set Q" "(s', l') \<in> set Q" for s l s' l'
  proof -
    have "\<forall>(s, l)\<in>set Q. \<forall>(s', l')\<in>set Q. l' \<le> l + 1"
      using inv by (elim conjE)
    with that show ?thesis by fast
  qed
  show "succs g s \<subseteq> V"
    if "s \<in> V" "s \<notin> fst ` set Q" "hop_distance g a s d" "carries m R d" "int d < R" for s d
  proof -
    have "\<forall>s\<in>V. s \<notin> fst ` set Q \<longrightarrow>
        (\<forall>d. hop_distance g a s d \<longrightarrow> carries m R d \<longrightarrow> int d < R \<longrightarrow> succs g s \<subseteq> V)"
      using inv by (elim conjE)
    with that show ?thesis by fast
  qed
  show "systemEconomies M s =
          (if s \<in> V \<and> 1 \<le> d \<and> 0 < m div 2 ^ d
           then Some (RecordEvent4 (GetSystemEconomy mgr0 s) ty (m div 2 ^ d) [] False)
           else systemEconomies mgr0 s)" if "hop_distance g a s d" for s d
  proof -
    have "\<forall>s d. hop_distance g a s d \<longrightarrow>
        systemEconomies M s =
          (if s \<in> V \<and> 1 \<le> d \<and> 0 < m div 2 ^ d
           then Some (RecordEvent4 (GetSystemEconomy mgr0 s) ty (m div 2 ^ d) [] False)
           else systemEconomies mgr0 s)"
      using inv by (elim conjE)
    with that show ?thesis by fast
  qed
  show "systemEconomies M s = systemEconomies mgr0 s" if "s \<notin> V" for s
  proof -
    have "\<forall>s. s \<notin> V \<longrightarrow> systemEconomies M s = systemEconomies mgr0 s"
      using inv by (elim conjE)
    with that show ?thesis by fast
  qed
  show "M\<lparr>systemEconomies := systemEconomies mgr0\<rparr> = mgr0" using inv by (elim conjE)
qed

lemma bfs_invI:
  assumes "a \<in> V" and "nullptr \<notin> V" and "V \<subseteq> U"
    and "\<And>s. s \<in> V \<Longrightarrow> \<exists>d. hop_distance g a s d \<and> int d \<le> R"
    and "distinct (map fst Q)"
    and "\<And>s l. (s, l) \<in> set Q \<Longrightarrow>
           s \<in> V \<and> 0 \<le> l \<and> hop_distance g a s (nat l) \<and> carries m R (nat l)"
    and "sorted (map snd Q)"
    and "\<And>s l s' l'. (s, l) \<in> set Q \<Longrightarrow> (s', l') \<in> set Q \<Longrightarrow> l' \<le> l + 1"
    and "\<And>s d. s \<in> V \<Longrightarrow> s \<notin> fst ` set Q \<Longrightarrow> hop_distance g a s d \<Longrightarrow> carries m R d \<Longrightarrow>
           int d < R \<Longrightarrow> succs g s \<subseteq> V"
    and "\<And>s d. hop_distance g a s d \<Longrightarrow>
        systemEconomies M s =
          (if s \<in> V \<and> 1 \<le> d \<and> 0 < m div 2 ^ d
           then Some (RecordEvent4 (GetSystemEconomy mgr0 s) ty (m div 2 ^ d) [] False)
           else systemEconomies mgr0 s)"
    and "\<And>s. s \<notin> V \<Longrightarrow> systemEconomies M s = systemEconomies mgr0 s"
    and "M\<lparr>systemEconomies := systemEconomies mgr0\<rparr> = mgr0"
  shows "bfs_inv g a R ty m mgr0 U V Q M"
  unfolding bfs_inv_def
proof (intro conjI)
  show "\<forall>(s, l)\<in>set Q. s \<in> V \<and> 0 \<le> l \<and> hop_distance g a s (nat l) \<and> carries m R (nat l)"
    using assms(6) by fast
  show "\<forall>(s, l)\<in>set Q. \<forall>(s', l')\<in>set Q. l' \<le> l + 1"
    using assms(8) by fast
  show "\<forall>s\<in>V. s \<notin> fst ` set Q \<longrightarrow>
        (\<forall>d. hop_distance g a s d \<longrightarrow> carries m R d \<longrightarrow> int d < R \<longrightarrow> succs g s \<subseteq> V)"
    using assms(9) by blast
  show "\<forall>s d. hop_distance g a s d \<longrightarrow>
        systemEconomies M s =
          (if s \<in> V \<and> 1 \<le> d \<and> 0 < m div 2 ^ d
           then Some (RecordEvent4 (GetSystemEconomy mgr0 s) ty (m div 2 ^ d) [] False)
           else systemEconomies mgr0 s)"
    using assms(10) by blast
  show "\<forall>s. s \<notin> V \<longrightarrow> systemEconomies M s = systemEconomies mgr0 s"
    using assms(11) by blast
  show "\<forall>s\<in>V. \<exists>d. hop_distance g a s d \<and> int d \<le> R"
    using assms(4) by blast
qed (rule assms(1,2,3,5,7,12))+

lemma bfs_inv_init:
  assumes "a \<noteq> nullptr" "a \<in> U" "0 \<le> R" "0 < m"
  shows "bfs_inv g a R ty m mgr U {a} [(a, 0)] mgr"
proof (rule bfs_invI)
  show "\<exists>d. hop_distance g a s d \<and> int d \<le> R" if "s \<in> {a}" for s
    using that assms(3) by (intro exI [of _ 0]) simp
  show "s \<in> {a} \<and> 0 \<le> l \<and> hop_distance g a s (nat l) \<and> carries m R (nat l)"
    if "(s, l) \<in> set [(a, 0)]" for s l
    using that assms by (simp add: carries_def)
  show "systemEconomies mgr s =
          (if s \<in> {a} \<and> 1 \<le> d \<and> 0 < m div 2 ^ d
           then Some (RecordEvent4 (GetSystemEconomy mgr s) ty (m div 2 ^ d) [] False)
           else systemEconomies mgr s)" if "hop_distance g a s d" for s d
  proof (cases "s = a")
    case True
    with that have "d = 0" using hop_distance_unique [of g a a d 0] by simp
    then show ?thesis by simp
  next
    case False
    then show ?thesis by simp
  qed
qed (use assms in \<open>simp_all add: nullptr_def\<close>)

text \<open>While the head of the queue has distance \<open>l\<close>, every system within \<open>l\<close> hops is visited.\<close>

lemma queue_head_least:
  assumes "sorted (map snd ((u, l) # rest))" "(p, l') \<in> set ((u, l) # rest)"
  shows "l \<le> l'"
proof (cases "(p, l') = (u, l)")
  case True
  then show ?thesis by simp
next
  case False
  with assms(2) have "(p, l') \<in> set rest" by auto
  then have "l' \<in> set (map snd rest)" by force
  moreover have "\<forall>y\<in>set (map snd rest). l \<le> y" using assms(1) by simp
  ultimately show ?thesis by blast
qed

text \<open>While the head of the queue has distance \<open>l\<close>, every system within \<open>l\<close> hops is visited.\<close>

lemma near_visited:
  assumes inv: "bfs_inv g a R ty m mgr0 U V ((u, l) # rest) M"
  shows "hop_distance g a s k \<Longrightarrow> int k \<le> l \<Longrightarrow> s \<in> V"
proof (induction k arbitrary: s)
  case 0
  then have "s = a" by simp
  then show ?case using bfs_invD(1) [OF inv] by simp
next
  case (Suc k)
  from hop_distance_pred [OF Suc.prems(1)] obtain p where
    p: "hop_distance g a p k" "s \<in> succs g p" by blast
  have kl: "int k \<le> l" using Suc.prems(2) by simp
  have pV: "p \<in> V" using p(1) kl by (rule Suc.IH)
  have "(u, l) \<in> set ((u, l) # rest)" by simp
  from bfs_invD(6) [OF inv this] have u: "0 \<le> l" "carries m R (nat l)" by blast+
  have notin: "p \<notin> fst ` set ((u, l) # rest)"
  proof
    assume "p \<in> fst ` set ((u, l) # rest)"
    then have "\<exists>l'. (p, l') \<in> set ((u, l) # rest)" by (simp only: image_iff) force
    then obtain l' where l': "(p, l') \<in> set ((u, l) # rest)" by blast
    from bfs_invD(6) [OF inv l'] have "0 \<le> l'" "hop_distance g a p (nat l')" by blast+
    with p(1) have "l' = int k" using hop_distance_unique [of g a p k "nat l'"] by simp
    moreover have "l \<le> l'"
      using bfs_invD(7) [OF inv] l' by (rule queue_head_least)
    ultimately show False using Suc.prems(2) by simp
  qed
  have "k \<le> nat l" using kl by simp
  with u(2) have ck: "carries m R k" by (rule carries_le)
  have "int (nat l) \<le> R" using u(2) by (simp add: carries_def)
  then have "int k < R" using Suc.prems(2) u(1) by simp
  with bfs_invD(9) [OF inv pV notin p(1) ck] have "succs g p \<subseteq> V" .
  with p(2) show ?case by blast
qed

lemma carried_visited:
  assumes inv: "bfs_inv g a R ty m mgr0 U V [] M"
  shows "hop_distance g a s k \<Longrightarrow> carries m R k \<Longrightarrow> s \<in> V"
proof (induction k arbitrary: s)
  case 0
  then have "s = a" by simp
  then show ?case using bfs_invD(1) [OF inv] by simp
next
  case (Suc k)
  from hop_distance_pred [OF Suc.prems(1)] obtain p where
    p: "hop_distance g a p k" "s \<in> succs g p" by blast
  have c: "carries m R k" using Suc.prems(2) by (rule carries_Suc)
  have pV: "p \<in> V" using p(1) c by (rule Suc.IH)
  have "int k < R" using Suc.prems(2) by (simp add: carries_def)
  moreover have "p \<notin> fst ` set []" by simp
  ultimately have "succs g p \<subseteq> V"
    using bfs_invD(9) [OF inv pV _ p(1) c] by blast
  with p(2) show ?case by blast
qed

lemma bfs_inv_skip:
  assumes inv: "bfs_inv g a R ty m mgr0 U V ((u, l) # rest) M" and l: "R \<le> l"
  shows "bfs_inv g a R ty m mgr0 U V rest M"
proof (rule bfs_invI)
  have "(u, l) \<in> set ((u, l) # rest)" by simp
  from bfs_invD(6) [OF inv this]
  have u: "0 \<le> l" "hop_distance g a u (nat l)" "u \<in> V" by blast+
  show "succs g s \<subseteq> V"
    if "s \<in> V" "s \<notin> fst ` set rest" "hop_distance g a s d" "carries m R d" "int d < R" for s d
  proof (cases "s = u")
    case True
    with that(3) u(2) have "d = nat l" using hop_distance_unique by blast
    with that(5) l u(1) show ?thesis by simp
  next
    case False
    with that(2) have "s \<notin> fst ` set ((u, l) # rest)" by simp
    then show ?thesis by (rule bfs_invD(9) [OF inv that(1) _ that(3,4,5)])
  qed
  show "distinct (map fst rest)" using bfs_invD(5) [OF inv] by simp
  show "sorted (map snd rest)" using bfs_invD(7) [OF inv] by simp
  show "s \<in> V \<and> 0 \<le> l \<and> hop_distance g a s (nat l) \<and> carries m R (nat l)"
    if "(s, l) \<in> set rest" for s l
    by (rule bfs_invD(6) [OF inv]) (use that in simp)
  show "l'' \<le> l' + 1" if "(s, l') \<in> set rest" "(s', l'') \<in> set rest" for s l' s' l''
    by (rule bfs_invD(8) [OF inv, of s l' s' l'']) (use that in simp_all)
  show "a \<in> V" by (rule bfs_invD(1) [OF inv])
  show "nullptr \<notin> V" by (rule bfs_invD(2) [OF inv])
  show "V \<subseteq> U" by (rule bfs_invD(3) [OF inv])
  show "\<exists>d. hop_distance g a s d \<and> int d \<le> R" if "s \<in> V" for s
    using that by (rule bfs_invD(4) [OF inv])
  show "systemEconomies M s =
          (if s \<in> V \<and> 1 \<le> d \<and> 0 < m div 2 ^ d
           then Some (RecordEvent4 (GetSystemEconomy mgr0 s) ty (m div 2 ^ d) [] False)
           else systemEconomies mgr0 s)" if "hop_distance g a s d" for s d
    using that by (rule bfs_invD(10) [OF inv])
  show "systemEconomies M s = systemEconomies mgr0 s" if "s \<notin> V" for s
    using that by (rule bfs_invD(11) [OF inv])
  show "M\<lparr>systemEconomies := systemEconomies mgr0\<rparr> = mgr0" by (rule bfs_invD(12) [OF inv])
qed

lemma GetSystemEconomy_cong:
  "systemEconomies M s = systemEconomies M' s \<Longrightarrow> GetSystemEconomy M s = GetSystemEconomy M' s"
  by (simp add: GetSystemEconomy_def)

lemma bfs_inv_expand:
  assumes inv: "bfs_inv g a R ty m mgr0 U V ((u, l) # rest) M"
    and closed: "\<And>x. x \<in> U \<Longrightarrow> succs g x \<subseteq> U"
    and l: "l < R"
    and fresh: "distinct fresh" "set fresh = succs g u - V"
    and P: "P = m div 2 ^ (nat l + 1)"
    and V': "V' = V \<union> set fresh"
    and Q': "Q' = rest @ (if 0 < P then map (\<lambda>v. (v, l + 1)) fresh else [])"
    and M': "M' = (if 0 < P then foldl (\<lambda>M v. record_at M v ty P) M fresh else M)"
  shows "bfs_inv g a R ty m mgr0 U V' Q' M'"
proof (rule bfs_invI)
  have "(u, l) \<in> set ((u, l) # rest)" by simp
  from bfs_invD(6) [OF inv this]
  have u: "0 \<le> l" "hop_distance g a u (nat l)" "u \<in> V" "carries m R (nat l)" by blast+
  have nat_l1: "nat (l + 1) = nat l + 1" using u(1) by simp
  have fresh_dist: "hop_distance g a v (nat l + 1)" if "v \<in> set fresh" for v
  proof -
    from that fresh(2) have v: "v \<in> succs g u" "v \<notin> V" by blast+
    have "u \<in> reach g a (nat l)" using u(2) by (simp add: hop_distance_def)
    then have "v \<in> reach g a (Suc (nat l))" using v(1) by (rule reach_step)
    from reach_hop_distance [OF this] obtain k where
      k: "k \<le> Suc (nat l)" "hop_distance g a v k" by blast
    have "\<not> k \<le> nat l"
    proof
      assume "k \<le> nat l"
      then have "int k \<le> l" using u(1) by simp
      with near_visited [OF inv k(2)] v(2) show False by blast
    qed
    with k(1) have "k = nat l + 1" by simp
    with k(2) show ?thesis by simp
  qed
  have rest_in: "(s, l') \<in> set ((u, l) # rest)" if "(s, l') \<in> set rest" for s l'
    using that by simp
  have rest_V: "s \<in> V" if "(s, l') \<in> set rest" for s l'
    using bfs_invD(6) [OF inv rest_in [OF that]] by blast
  have rest_lab: "l \<le> l' \<and> l' \<le> l + 1" if "(s, l') \<in> set rest" for s l'
  proof
    show "l \<le> l'" using bfs_invD(7) [OF inv] rest_in [OF that] by (rule queue_head_least)
    show "l' \<le> l + 1"
      by (rule bfs_invD(8) [OF inv, of u l s l']) (simp, rule rest_in [OF that])
  qed
  have Q'_cases: "(s, l') \<in> set rest \<or> (0 < P \<and> s \<in> set fresh \<and> l' = l + 1)"
    if "(s, l') \<in> set Q'" for s l'
    using that unfolding Q' by (auto split: if_splits)
  show "a \<in> V'" using bfs_invD(1) [OF inv] by (simp add: V')
  show "nullptr \<notin> V'" using bfs_invD(2) [OF inv] fresh(2) by (simp add: V' succs_def)
  show "V' \<subseteq> U"
  proof -
    have "u \<in> U" using u(3) bfs_invD(3) [OF inv] by blast
    from closed [OF this] fresh(2) bfs_invD(3) [OF inv] show ?thesis unfolding V' by blast
  qed
  show "\<exists>d. hop_distance g a s d \<and> int d \<le> R" if "s \<in> V'" for s
  proof (cases "s \<in> set fresh")
    case True
    have "int (nat l + 1) \<le> R" using l u(1) by simp
    with fresh_dist [OF True] show ?thesis by blast
  next
    case False
    with that have "s \<in> V" by (simp add: V')
    then show ?thesis by (rule bfs_invD(4) [OF inv])
  qed
  show "distinct (map fst Q')"
  proof -
    have "distinct (map fst rest)" using bfs_invD(5) [OF inv] by simp
    moreover have "fst ` set rest \<inter> set fresh = {}"
      using rest_V fresh(2) by fastforce
    moreover have "map fst (map (\<lambda>v. (v, l + 1)) fresh) = fresh" by (simp add: comp_def)
    ultimately show ?thesis using fresh(1) unfolding Q' by (simp add: image_image)
  qed
  show "s \<in> V' \<and> 0 \<le> l' \<and> hop_distance g a s (nat l') \<and> carries m R (nat l')"
    if "(s, l') \<in> set Q'" for s l'
    using Q'_cases [OF that]
  proof
    assume "(s, l') \<in> set rest"
    from bfs_invD(6) [OF inv rest_in [OF this]] show ?thesis by (simp add: V')
  next
    assume new: "0 < P \<and> s \<in> set fresh \<and> l' = l + 1"
    then have "hop_distance g a s (nat l')" using fresh_dist [of s] nat_l1 by simp
    moreover have "carries m R (nat l')"
      using new l u(1) unfolding carries_def P by (simp add: nat_l1)
    ultimately show ?thesis using new u(1) by (simp add: V')
  qed
  show "sorted (map snd Q')"
  proof -
    have "sorted (map snd rest)" using bfs_invD(7) [OF inv] by simp
    moreover have "\<forall>x\<in>set (map snd rest). x \<le> l + 1" using rest_lab by fastforce
    moreover have "sorted (map snd (map (\<lambda>v. (v, l + 1)) fresh))"
      by (induction fresh) simp_all
    moreover have "\<forall>y\<in>set (map snd (map (\<lambda>v. (v, l + 1)) fresh)). y = l + 1" by simp
    ultimately show ?thesis unfolding Q'
      by (auto simp: sorted_append simp del: map_map)
  qed
  show "l2 \<le> l1 + 1" if "(s1, l1) \<in> set Q'" "(s2, l2) \<in> set Q'" for s1 l1 s2 l2
  proof -
    have "l \<le> l1" using Q'_cases [OF that(1)] rest_lab by fastforce
    moreover have "l2 \<le> l + 1" using Q'_cases [OF that(2)] rest_lab by fastforce
    ultimately show ?thesis by simp
  qed
  show "succs g s \<subseteq> V'"
    if s: "s \<in> V'" "s \<notin> fst ` set Q'" "hop_distance g a s d" "carries m R d" "int d < R" for s d
  proof -
    consider "s = u" | "s \<in> set fresh" | "s \<in> V" "s \<noteq> u" "s \<notin> set fresh"
      using s(1) unfolding V' by blast
    then show ?thesis
    proof cases
      case 1
      then show ?thesis using fresh(2) unfolding V' by blast
    next
      case 2
      from hop_distance_unique [OF s(3) fresh_dist [OF 2]] have "d = nat l + 1" .
      with s(4) have "0 < P" unfolding carries_def P by simp
      with 2 have "(s, l + 1) \<in> set Q'" unfolding Q' by simp
      then have "s \<in> fst ` set Q'" by force
      with s(2) show ?thesis by blast
    next
      case 3
      have "s \<notin> fst ` set rest" using s(2) unfolding Q' by auto
      with 3(2) have "s \<notin> fst ` set ((u, l) # rest)" by simp
      from bfs_invD(9) [OF inv 3(1) this s(3,4,5)] show ?thesis unfolding V' by blast
    qed
  qed
  have M'_fresh: "systemEconomies M' s =
      (if 0 < P \<and> s \<in> set fresh then Some (RecordEvent4 (GetSystemEconomy M s) ty P [] False)
       else systemEconomies M s)" for s
    unfolding M' using foldl_record_at [OF fresh(1), of ty P M s] by simp
  show "systemEconomies M' s =
          (if s \<in> V' \<and> 1 \<le> d \<and> 0 < m div 2 ^ d
           then Some (RecordEvent4 (GetSystemEconomy mgr0 s) ty (m div 2 ^ d) [] False)
           else systemEconomies mgr0 s)" if hd: "hop_distance g a s d" for s d
  proof (cases "s \<in> set fresh")
    case True
    from hop_distance_unique [OF hd fresh_dist [OF True]] have d: "d = nat l + 1" .
    have "s \<notin> V" using True fresh(2) by blast
    from bfs_invD(11) [OF inv this]
    have old: "systemEconomies M s = systemEconomies mgr0 s" .
    then have "GetSystemEconomy M s = GetSystemEconomy mgr0 s" by (rule GetSystemEconomy_cong)
    then show ?thesis
      using True old unfolding M'_fresh by (simp add: V' d P)
  next
    case False
    then have "systemEconomies M' s = systemEconomies M s" unfolding M'_fresh by simp
    moreover have "s \<in> V' \<longleftrightarrow> s \<in> V" using False by (simp add: V')
    ultimately show ?thesis using bfs_invD(10) [OF inv hd] by simp
  qed
  show "systemEconomies M' s = systemEconomies mgr0 s" if "s \<notin> V'" for s
  proof -
    from that have "s \<notin> V" "s \<notin> set fresh" by (simp_all add: V')
    then show ?thesis using bfs_invD(11) [OF inv, of s] unfolding M'_fresh by simp
  qed
  show "M'\<lparr>systemEconomies := systemEconomies mgr0\<rparr> = mgr0"
    using bfs_invD(12) [OF inv] unfolding M' by (simp add: foldl_record_at_rest)
qed

text \<open>
  From a state that satisfies the invariant the loop comes to an end, in a state with
  an empty queue that satisfies the invariant.  The number of systems of \<open>U\<close> not yet
  visited, counted twice, plus the length of the queue decreases with every iteration.
\<close>

lemma PropagateEffects_loop_terminates:
  assumes U: "finite U" and closed: "\<And>x. x \<in> U \<Longrightarrow> succs g x \<subseteq> U"
    and m: "0 < m" "m < 2 ^ 31"
  shows "bfs_inv g a R ty m mgr0 U V Q M \<Longrightarrow>
    \<exists>V' M'. PropagateEffects_loop g R ty m V Q M = Some M' \<and> bfs_inv g a R ty m mgr0 U V' [] M'"
proof (induction "2 * card (U - V) + length Q" arbitrary: V Q M rule: less_induct)
  case less
  note inv = less.prems
  show ?case
  proof (cases Q)
    case Nil
    have "PropagateEffects_loop g R ty m V [] M = Some M"
      by (subst PropagateEffects_loop.simps) simp
    with inv Nil show ?thesis by blast
  next
    case (Cons x rest)
    obtain u l where x: "x = (u, l)" by (cases x)
    note Q = Cons [unfolded x]
    note inv' = inv [unfolded Q]
    show ?thesis
    proof (cases "R \<le> l")
      case True
      have step: "PropagateEffects_loop g R ty m V Q M = PropagateEffects_loop g R ty m V rest M"
        unfolding Q using True by (subst PropagateEffects_loop.simps) simp
      have "bfs_inv g a R ty m mgr0 U V rest M" using inv' True by (rule bfs_inv_skip)
      moreover have "2 * card (U - V) + length rest < 2 * card (U - V) + length Q"
        by (simp add: Q)
      ultimately show ?thesis unfolding step by (rule less.hyps [rotated])
    next
      case False
      then have l: "l < R" by simp
      have "(u, l) \<in> set ((u, l) # rest)" by simp
      from bfs_invD(6) [OF inv' this] have l0: "0 \<le> l" by blast
      define P where "P = m div 2 ^ (nat l + 1)"
      have P: "m sdiv shift_left 1 (l + 1) = P"
        using propagated_magnitude [OF m, of "nat l"] l0 by (simp add: P_def)
      from links_result [of "Links (g u)" V ty m l rest M] obtain fresh where
        fresh: "distinct fresh" "set fresh = succs g u - V"
        and res: "PropagateEffects_links ty m l (Links (g u)) V rest M =
          (V \<union> set fresh,
           rest @ (if 0 < P then map (\<lambda>v. (v, l + 1)) fresh else []),
           (if 0 < P then foldl (\<lambda>M v. record_at M v ty P) M fresh else M))"
        unfolding P succs_def by blast
      define V' where "V' = V \<union> set fresh"
      define Q' where "Q' = rest @ (if 0 < P then map (\<lambda>v. (v, l + 1)) fresh else [])"
      define M' where "M' = (if 0 < P then foldl (\<lambda>M v. record_at M v ty P) M fresh else M)"
      have step: "PropagateEffects_loop g R ty m V Q M = PropagateEffects_loop g R ty m V' Q' M'"
        unfolding Q V'_def Q'_def M'_def using False
        by (subst PropagateEffects_loop.simps) (simp add: res)
      have inv2: "bfs_inv g a R ty m mgr0 U V' Q' M'"
        using inv' closed l fresh P_def V'_def Q'_def M'_def by (rule bfs_inv_expand)
      have "set fresh \<subseteq> U - V" using bfs_invD(3) [OF inv2] fresh(2) by (auto simp: V'_def)
      then have split: "U - V = (U - V') \<union> set fresh" "(U - V') \<inter> set fresh = {}"
        by (auto simp: V'_def)
      have "card (U - V) = card (U - V') + card (set fresh)"
        unfolding split(1) using U split(2) by (intro card_Un_disjoint) simp_all
      moreover have "card (set fresh) = length fresh" using fresh(1) by (rule distinct_card)
      moreover have "length Q' \<le> length rest + length fresh" by (simp add: Q'_def)
      ultimately have "2 * card (U - V') + length Q' < 2 * card (U - V) + length Q"
        by (simp add: Q)
      with inv2 show ?thesis unfolding step by (rule less.hyps [rotated])
    qed
  qed
qed

text \<open>
  C3.  Let the systems that can be reached from \<open>a\<close> lie in a finite set \<open>U\<close>, let the
  cascade radius be at least 1 and the magnitude a positive \<open>int\<close>.  Then
  \<open>PropagateEffects\<close> comes to an end, cycles or not, and its whole effect is this: a system
  at hop distance \<open>d\<close> from \<open>a\<close> with \<open>1 \<le> d \<le> radius\<close> and \<open>floor(magnitude / 2^d) > 0\<close>
  has exactly one event recorded, of the same type and of magnitude
  \<open>floor(magnitude / 2^d)\<close>; every other system, among them \<open>a\<close> itself (distance 0),
  the systems farther than the radius, those whose share of the magnitude is 0, and those
  that cannot be reached, is left as it was, and so is the rest of the manager.
\<close>

theorem PropagateEffects_cascade:
  assumes "finite U" and "a \<in> U" and "\<forall>x\<in>U. succs galaxy x \<subseteq> U"
    and "a \<noteq> nullptr" and "1 \<le> cascadeRadius (config this)"
    and "0 < mag" and "mag < 2 ^ 31"
  shows "\<exists>mgr'. PropagateEffects this galaxy mgr a type mag = Some mgr' \<and>
     (\<forall>s d. hop_distance galaxy a s d \<longrightarrow>
        systemEconomies mgr' s =
          (if 1 \<le> d \<and> int d \<le> cascadeRadius (config this) \<and> 0 < mag div 2 ^ d
           then Some (RecordEvent4 (GetSystemEconomy mgr s) type (mag div 2 ^ d) [] False)
           else systemEconomies mgr s)) \<and>
     (\<forall>s. (\<forall>d. \<not> hop_distance galaxy a s d) \<longrightarrow>
        systemEconomies mgr' s = systemEconomies mgr s) \<and>
     mgr'\<lparr>systemEconomies := systemEconomies mgr\<rparr> = mgr"
proof -
  define R where "R = cascadeRadius (config this)"
  have R: "0 \<le> R" "1 \<le> R" using assms(5) by (simp_all add: R_def)
  have closed: "\<And>x. x \<in> U \<Longrightarrow> succs galaxy x \<subseteq> U" using assms(3) by blast
  have "bfs_inv galaxy a R type mag mgr U {a} [(a, 0)] mgr"
    using assms(4,2) R(1) assms(6) by (rule bfs_inv_init)
  from PropagateEffects_loop_terminates [OF assms(1) closed assms(6,7) this]
  obtain V' mgr' where
    loop: "PropagateEffects_loop galaxy R type mag {a} [(a, 0)] mgr = Some mgr'"
    and inv: "bfs_inv galaxy a R type mag mgr U V' [] mgr'"
    by blast
  have 1: "PropagateEffects this galaxy mgr a type mag = Some mgr'"
    using assms(4,5,6) loop by (simp add: PropagateEffects_def R_def)
  have 2: "systemEconomies mgr' s =
          (if 1 \<le> d \<and> int d \<le> R \<and> 0 < mag div 2 ^ d
           then Some (RecordEvent4 (GetSystemEconomy mgr s) type (mag div 2 ^ d) [] False)
           else systemEconomies mgr s)" if hd: "hop_distance galaxy a s d" for s d
  proof -
    have "s \<in> V' \<longleftrightarrow> int d \<le> R" if "0 < mag div 2 ^ d"
    proof
      assume "s \<in> V'"
      from bfs_invD(4) [OF inv this] obtain d' where
        "hop_distance galaxy a s d'" "int d' \<le> R" by blast
      with hop_distance_unique [OF hd this(1)] show "int d \<le> R" by simp
    next
      assume "int d \<le> R"
      with that have "carries mag R d" by (simp add: carries_def)
      with inv hd show "s \<in> V'" by (rule carried_visited)
    qed
    then show ?thesis using bfs_invD(10) [OF inv hd] by auto
  qed
  have 3: "systemEconomies mgr' s = systemEconomies mgr s"
    if "\<forall>d. \<not> hop_distance galaxy a s d" for s
  proof -
    have "s \<notin> V'" using bfs_invD(4) [OF inv, of s] that by blast
    then show ?thesis by (rule bfs_invD(11) [OF inv])
  qed
  have 4: "mgr'\<lparr>systemEconomies := systemEconomies mgr\<rparr> = mgr"
    by (rule bfs_invD(12) [OF inv])
  show ?thesis
    using 1 2 3 4 unfolding R_def by blast
qed

lemma ring_galaxy_succs:
  "succs ring_galaxy 10 = {20, 40}" "succs ring_galaxy 20 = {10, 30}"
  "succs ring_galaxy 30 = {20, 40}" "succs ring_galaxy 40 = {10, 30}"
  by (auto simp: succs_def ring_galaxy_def nullptr_def)

lemma ring_galaxy_distances:
  "hop_distance ring_galaxy 10 10 0" "hop_distance ring_galaxy 10 20 1"
  "hop_distance ring_galaxy 10 30 2"
proof -
  have r: "reach ring_galaxy 10 (Suc 0) = {20, 40}"
    "reach ring_galaxy 10 (Suc (Suc 0)) = {10, 30}"
    by (auto simp: ring_galaxy_succs)
  show "hop_distance ring_galaxy 10 10 0" by simp
  show "hop_distance ring_galaxy 10 20 1" using r by (simp add: hop_distance_def)
  show "hop_distance ring_galaxy 10 30 2"
    unfolding numeral_2_eq_2 hop_distance_def using r by (simp add: less_Suc_eq)
qed

theorem PropagateEffects_cascade_witness:
  "finite {10, 20, 30, 40 :: nat} \<and> (10 :: nat) \<in> {10, 20, 30, 40} \<and>
   succs ring_galaxy 10 \<subseteq> {10, 20, 30, 40} \<and> succs ring_galaxy 20 \<subseteq> {10, 20, 30, 40} \<and>
   succs ring_galaxy 30 \<subseteq> {10, 20, 30, 40} \<and> succs ring_galaxy 40 \<subseteq> {10, 20, 30, 40} \<and>
   (10 :: nat) \<noteq> nullptr \<and> 1 \<le> cascadeRadius (config SystemEconomy_init) \<and>
   (0 :: int) < 5 \<and> (5 :: int) < 2 ^ 31 \<and>
   hop_distance ring_galaxy 10 10 0 \<and> hop_distance ring_galaxy 10 20 1 \<and>
   hop_distance ring_galaxy 10 30 2 \<and>
   (\<exists>mgr'. PropagateEffects SystemEconomy_init ring_galaxy EconomicManager_init 10
              MERCHANT_DESTROYED 5 = Some mgr' \<and>
      systemEconomies mgr' 10 = None \<and>
      systemEconomies mgr' 20 = Some (RecordEvent4 SystemEconomy_init MERCHANT_DESTROYED 2 [] False) \<and>
      systemEconomies mgr' 30 = Some (RecordEvent4 SystemEconomy_init MERCHANT_DESTROYED 1 [] False))"
proof -
  have h: "finite {10, 20, 30, 40 :: nat}" "(10 :: nat) \<in> {10, 20, 30, 40}"
    "\<forall>x\<in>{10, 20, 30, 40}. succs ring_galaxy x \<subseteq> {10, 20, 30, 40}"
    "(10 :: nat) \<noteq> nullptr" "1 \<le> cascadeRadius (config SystemEconomy_init)"
    "(0 :: int) < 5" "(5 :: int) < 2 ^ 31"
    by (simp_all add: ring_galaxy_succs nullptr_def SystemEconomy_init_def EconomicConfig_init_def)
  from PropagateEffects_cascade [OF h, of EconomicManager_init MERCHANT_DESTROYED]
  obtain mgr' where
    res: "PropagateEffects SystemEconomy_init ring_galaxy EconomicManager_init 10
            MERCHANT_DESTROYED 5 = Some mgr'"
    and ev: "\<And>s d. hop_distance ring_galaxy 10 s d \<Longrightarrow>
        systemEconomies mgr' s =
          (if 1 \<le> d \<and> int d \<le> cascadeRadius (config SystemEconomy_init) \<and> 0 < (5 :: int) div 2 ^ d
           then Some (RecordEvent4 (GetSystemEconomy EconomicManager_init s) MERCHANT_DESTROYED
                  (5 div 2 ^ d) [] False)
           else systemEconomies EconomicManager_init s)"
    by blast
  have c: "cascadeRadius (config SystemEconomy_init) = 2"
    "GetSystemEconomy EconomicManager_init s = SystemEconomy_init"
    "systemEconomies EconomicManager_init s = None" for s
    by (simp_all add: SystemEconomy_init_def EconomicConfig_init_def GetSystemEconomy_def
        EconomicManager_init_def)
  have "systemEconomies mgr' 10 = None"
    using ev [OF ring_galaxy_distances(1)] by (simp add: c)
  moreover have "systemEconomies mgr' 20 =
      Some (RecordEvent4 SystemEconomy_init MERCHANT_DESTROYED 2 [] False)"
    using ev [OF ring_galaxy_distances(2)] by (simp add: c)
  moreover have "systemEconomies mgr' 30 =
      Some (RecordEvent4 SystemEconomy_init MERCHANT_DESTROYED 1 [] False)"
    using ev [OF ring_galaxy_distances(3)] by (simp add: c)
  ultimately show ?thesis using h res ring_galaxy_distances by simp
qed

end
